theory Spec2Isabelle
  imports Complex_Main "HOL-Library.Product_Lexorder" "HOL-Library.Word"
begin

section \<open>Values shared by the service\<close>

text \<open>
  The exceptions of the Python source that the model tracks. Each \<^verbatim>\<open>raise\<close> that the
  modelled code can reach is a value of this type.
\<close>

datatype error = IndexError | ValueError | ZeroDivisionError | QueueFull

text \<open>
  A floating-point value as far as the recognition path needs it: a finite value, the
  two infinities and NaN. \<^verbatim>\<open>float('inf')\<close> is \<open>PosInf\<close>. The comparisons are those of
  IEEE arithmetic: every comparison with NaN is false.
\<close>

datatype pyfloat = Finite real | PosInf | NegInf | NaN

fun float_sub :: "pyfloat \<Rightarrow> pyfloat \<Rightarrow> pyfloat" where
  "float_sub NaN _ = NaN"
| "float_sub _ NaN = NaN"
| "float_sub (Finite a) (Finite b) = Finite (a - b)"
| "float_sub (Finite a) PosInf = NegInf"
| "float_sub (Finite a) NegInf = PosInf"
| "float_sub PosInf PosInf = NaN"
| "float_sub PosInf _ = PosInf"
| "float_sub NegInf NegInf = NaN"
| "float_sub NegInf _ = NegInf"

fun float_lt :: "pyfloat \<Rightarrow> pyfloat \<Rightarrow> bool" where
  "float_lt NaN _ = False"
| "float_lt _ NaN = False"
| "float_lt (Finite a) (Finite b) = (a < b)"
| "float_lt (Finite a) PosInf = True"
| "float_lt NegInf (Finite b) = True"
| "float_lt NegInf PosInf = True"
| "float_lt _ _ = False"

fun float_le :: "pyfloat \<Rightarrow> pyfloat \<Rightarrow> bool" where
  "float_le NaN _ = False"
| "float_le _ NaN = False"
| "float_le (Finite a) (Finite b) = (a \<le> b)"
| "float_le NegInf _ = True"
| "float_le _ PosInf = True"
| "float_le _ _ = False"

text \<open>
  Python's \<^verbatim>\<open>max(a, b)\<close> keeps \<open>a\<close> unless \<open>b > a\<close>.
\<close>

definition py_max :: "pyfloat \<Rightarrow> pyfloat \<Rightarrow> pyfloat" where
  "py_max a b = (if float_lt a b then b else a)"

text \<open>\<^verbatim>\<open>int(x)\<close> on a float truncates towards zero.\<close>

definition py_int :: "real \<Rightarrow> int" where
  "py_int r = (if 0 \<le> r then \<lfloor>r\<rfloor> else \<lceil>r\<rceil>)"

subsection \<open>Images\<close>

text \<open>
  A BGR image is its rows of pixels; the pixel's three channels are packed in one number.
  \<^verbatim>\<open>shape[0]\<close> is the number of rows, \<^verbatim>\<open>shape[1]\<close> the length of a row, and
  \<^verbatim>\<open>size\<close> the number of array elements.
\<close>

type_synonym pixel = nat
type_synonym image = "pixel list list"

definition img_height :: "image \<Rightarrow> nat" where
  "img_height img = length img"

definition img_width :: "image \<Rightarrow> nat" where
  "img_width img = (case img of [] \<Rightarrow> 0 | r # _ \<Rightarrow> length r)"

definition img_size :: "image \<Rightarrow> nat" where
  "img_size img = img_height img * img_width img * 3"

text \<open>
  A Python slice \<^verbatim>\<open>xs[i:j]\<close>: a negative bound counts from the end, and both bounds are
  clamped to the sequence.
\<close>

definition slice_bound :: "nat \<Rightarrow> int \<Rightarrow> nat" where
  "slice_bound n k = (if k < 0 then nat (max 0 (k + int n)) else min (nat k) n)"

definition py_slice :: "int \<Rightarrow> int \<Rightarrow> 'a list \<Rightarrow> 'a list" where
  "py_slice i j xs =
     (let a = slice_bound (length xs) i; b = slice_bound (length xs) j
      in take (b - a) (drop a xs))"

text \<open>\<^verbatim>\<open>frame[y1:y2, x1:x2].copy()\<close>\<close>

definition crop :: "image \<Rightarrow> int \<Rightarrow> int \<Rightarrow> int \<Rightarrow> int \<Rightarrow> image" where
  "crop frame y1 y2 x1 x2 = map (py_slice x1 x2) (py_slice y1 y2 frame)"

subsection \<open>External collaborators\<close>

text \<open>
  The libraries the service calls (OpenCV, face_recognition, scikit-learn, pickle) are
  not part of the repository. Each call is a field of this record, taken as a parameter
  by every function that makes the call. \<open>face_loc\<close> is a face location
  (top, right, bottom, left); \<open>pickled\<close> is what \<^verbatim>\<open>pickle.load\<close> returns, typed as
  the source annotates it: either not a dictionary, or a dictionary whose entries
  \<^verbatim>\<open>'encodings'\<close> and \<^verbatim>\<open>'names'\<close>, when present, are a list of vectors and a list of
  strings. \<open>estimate_head_pose_angles\<close> is the head-pose estimate of the source (face
  landmarks, \<^verbatim>\<open>cv2.solvePnP\<close> and trigonometry); it returns the angles or \<open>None\<close> and
  never raises. \<open>on_overlay\<close> is the overlay callback, when one is given: it may draw on
  the frame in place and returns the frame as it leaves it. The calls into OpenCV and
  face_recognition are taken to return a value; unpickling, fitting the tree and querying
  it can fail. \<open>sk_kneighbors\<close> answers a row number of the fitted array and a distance.

  numpy's float32 arithmetic is a parameter as well. The index stores its rows cast to
  float32 and casts the query to float32, and subtracts and takes norms in float32.
  \<open>f32_norm_diff\<close> is that arithmetic on one row: given the pairs (row entry, query
  entry) that broadcasting puts side by side, it is the Euclidean norm of the differences,
  every entry cast to float32 first. The cast is a function of the entry alone, so the
  rows are kept as they were given and the cast is left to \<open>f32_norm_diff\<close>,
  \<open>sk_fit\<close> and \<open>sk_kneighbors\<close>.
\<close>

type_synonym face_loc = "nat \<times> nat \<times> nat \<times> nat"
type_synonym vec = "real list"
type_synonym bytes = "8 word list"

datatype pickled = NotADict | Dict "vec list option" "string list option"

record ext =
  has_sklearn :: bool
  sk_fit :: "vec list \<Rightarrow> bool"
  sk_kneighbors :: "vec list \<Rightarrow> vec \<Rightarrow> error + (nat \<times> pyfloat)"
  f32_norm_diff :: "(real \<times> real) list \<Rightarrow> pyfloat"
  pickle_load :: "bytes \<Rightarrow> pickled option"
  cv2_resize :: "image \<Rightarrow> real \<Rightarrow> image"
  cv2_cvtColor :: "image \<Rightarrow> image"
  face_locations :: "image \<Rightarrow> face_loc list"
  face_encodings :: "image \<Rightarrow> face_loc list \<Rightarrow> vec list"
  estimate_head_pose_angles :: "image \<Rightarrow> (real \<times> real \<times> real) option"
  on_overlay :: "(image \<Rightarrow> (int \<times> int \<times> int \<times> int \<times> string \<times> real) list \<Rightarrow> image) option"

section \<open>EmbeddingIndex\<close>

text \<open>
  \<open>data\<close> is the two-dimensional array of the known encodings (one row each, as given
  to the constructor; see the note on float32 above); \<open>nn\<close> tells whether a fitted
  \<^verbatim>\<open>NearestNeighbors\<close> object is held.
\<close>

record embedding_index =
  names :: "string list"
  data :: "vec list"
  nn :: bool

text \<open>
  \<^verbatim>\<open>np.asarray(encodings, dtype=np.float32)\<close> on a list of vectors: a ragged list has no
  array shape and raises ValueError.
\<close>

definition np_asarray :: "vec list \<Rightarrow> error + vec list" where
  "np_asarray encodings =
     (case encodings of
        [] \<Rightarrow> Inr []
      | r # rs \<Rightarrow> if list_all (\<lambda>q. length q = length r) rs then Inr encodings
                 else Inl ValueError)"

text \<open>
  \<^verbatim>\<open>EmbeddingIndex.__init__\<close>. An empty list of encodings gives the empty array
  \<^verbatim>\<open>np.empty((0, 128))\<close>, which has no rows. \<^verbatim>\<open>NearestNeighbors.fit\<close> may reject the
  array; \<open>sk_fit\<close> tells whether it accepts it.
\<close>

definition EmbeddingIndex :: "ext \<Rightarrow> vec list \<Rightarrow> string list \<Rightarrow> error + embedding_index" where
  "EmbeddingIndex e encodings nms =
     (case (if encodings \<noteq> [] then np_asarray encodings else Inr []) of
        Inl err \<Rightarrow> Inl err
      | Inr d \<Rightarrow>
          if has_sklearn e \<and> 5 \<le> length d then
            (if sk_fit e d then Inr \<lparr>names = nms, data = d, nn = True\<rparr>
             else Inl ValueError)
          else Inr \<lparr>names = nms, data = d, nn = False\<rparr>)"

text \<open>
  \<^verbatim>\<open>self.data - v\<close> for one row of \<open>data\<close> and the query reshaped to one row: the
  entries that numpy subtracts from each other. numpy broadcasts a row of length one
  against the other operand, and raises ValueError when the lengths differ otherwise.
\<close>

definition broadcast_pairs :: "vec \<Rightarrow> vec \<Rightarrow> error + (real \<times> real) list" where
  "broadcast_pairs row v =
     (if length row = length v then Inr (zip row v)
      else if length row = 1 then Inr (map (\<lambda>b. (hd row, b)) v)
      else if length v = 1 then Inr (map (\<lambda>a. (a, hd v)) row)
      else Inl ValueError)"

text \<open>\<^verbatim>\<open>np.linalg.norm(self.data - v, axis=1)\<close>\<close>

fun row_dists :: "ext \<Rightarrow> vec list \<Rightarrow> vec \<Rightarrow> error + pyfloat list" where
  "row_dists e [] v = Inr []"
| "row_dists e (r # rs) v =
     (case broadcast_pairs r v of
        Inl err \<Rightarrow> Inl err
      | Inr ps \<Rightarrow> (case row_dists e rs v of
                    Inl err \<Rightarrow> Inl err
                  | Inr ds \<Rightarrow> Inr (f32_norm_diff e ps # ds)))"

text \<open>
  \<^verbatim>\<open>np.argmin\<close>: the index of the first NaN when there is one, and otherwise the first
  index of the least entry. numpy's loop replaces the best entry so far when it is not
  less than or equal to the next one, and stops at a NaN.
\<close>

fun argmin_from :: "nat \<Rightarrow> pyfloat \<Rightarrow> nat \<Rightarrow> pyfloat list \<Rightarrow> nat" where
  "argmin_from bi bv i [] = bi"
| "argmin_from bi bv i (x # xs) =
     (if bv = NaN then bi
      else if \<not> float_le bv x then argmin_from i x (Suc i) xs
      else argmin_from bi bv (Suc i) xs)"

definition argmin :: "pyfloat list \<Rightarrow> nat" where
  "argmin ds = (case ds of [] \<Rightarrow> 0 | x # xs \<Rightarrow> argmin_from 0 x 1 xs)"

text \<open>\<^verbatim>\<open>EmbeddingIndex.query\<close>\<close>

definition query :: "ext \<Rightarrow> embedding_index \<Rightarrow> vec \<Rightarrow> error + (int \<times> pyfloat)" where
  "query e ix v =
     (if length (data ix) = 0 then Inr (- 1, PosInf)
      else if nn ix then
        (case sk_kneighbors e (data ix) v of
           Inl err \<Rightarrow> Inl err
         | Inr (idx, dst) \<Rightarrow> Inr (int idx, dst))
      else (case row_dists e (data ix) v of
              Inl err \<Rightarrow> Inl err
            | Inr dists \<Rightarrow>
                (let best_idx = argmin dists
                 in Inr (int best_idx, dists ! best_idx))))"

text \<open>
  The same method in state-passing form: the answer, and the index object as the call
  leaves it.
\<close>

definition query_st ::
  "ext \<Rightarrow> vec \<Rightarrow> embedding_index \<Rightarrow> (error + (int \<times> pyfloat)) \<times> embedding_index" where
  "query_st e v ix =
     (if length (data ix) = 0 then (Inr (- 1, PosInf), ix)
      else if nn ix then
        (case sk_kneighbors e (data ix) v of
           Inl err \<Rightarrow> (Inl err, ix)
         | Inr (idx, dst) \<Rightarrow> (Inr (int idx, dst), ix))
      else (case row_dists e (data ix) v of
              Inl err \<Rightarrow> (Inl err, ix)
            | Inr dists \<Rightarrow>
                (let best_idx = argmin dists
                 in (Inr (int best_idx, dists ! best_idx), ix))))"

section \<open>FaceRecognitionService\<close>

text \<open>
  A pose sample is the tuple \<^verbatim>\<open>(score, -area_rel, face_crop, (yaw, pitch, roll))\<close> that the
  capture loop appends to its buffer.
\<close>

type_synonym pose_sample = "real \<times> real \<times> image \<times> (real \<times> real \<times> real)"

text \<open>
  The attributes of the service object. \<open>tracker\<close> is \<open>None\<close> when no tracker exists
  and otherwise holds the rectangle \<^verbatim>\<open>(x1, y1, w, h)\<close> the tracker was initialised with;
  \<open>recognition_queue\<close> is the content of \<^verbatim>\<open>queue.Queue(maxsize=1)\<close>, oldest first;
  \<open>pose_buffer\<close> is the content of \<^verbatim>\<open>deque(maxlen=12)\<close>, oldest first.
\<close>

record service =
  encodings_file :: string
  recognition_threshold :: real
  user_exit_frames :: nat
  pose_stride :: nat
  frontality_thr :: real
  min_face_area_rel :: real
  processing :: bool
  recognition_queue :: "image list"
  tracker :: "(int \<times> int \<times> int \<times> int) option"
  track_ok_frames :: nat
  no_face_frames :: nat
  pose_buffer :: "pose_sample list"
  recognition_in_progress :: bool
  result_displayed :: bool
  lockout_active :: bool
  lockout_start_time :: real
  frame_count :: nat
  capture_fps :: int
  display_fps :: int
  video_scale_factor :: real
  known_encodings :: "vec list"
  known_names :: "string list"
  index :: "embedding_index option"
  last_frame :: "image option"

text \<open>
  A method that assigns attributes and may raise returns the service as it leaves it in
  both cases.
\<close>

datatype 'a outcome = Returns 'a service | Raises error service

text \<open>The file system: the bytes stored under each path that exists.\<close>

type_synonym fsys = "string \<rightharpoonup> bytes"

subsection \<open>Encodings\<close>

text \<open>
  \<^verbatim>\<open>load_encodings\<close>. A missing file returns False at once. Inside the \<^verbatim>\<open>try\<close>,
  \<^verbatim>\<open>pickle.load\<close> may raise (\<open>pickle_load\<close> gives \<open>None\<close>), \<^verbatim>\<open>data.get\<close> raises when
  the object is not a dictionary, and building the index may raise; every exception is
  caught and False is returned, with the assignments made so far left in place.
\<close>

definition load_encodings :: "ext \<Rightarrow> fsys \<Rightarrow> service \<Rightarrow> bool \<times> service" where
  "load_encodings e fs s =
     (case fs (encodings_file s) of
        None \<Rightarrow> (False, s)
      | Some b \<Rightarrow>
          (case pickle_load e b of
             None \<Rightarrow> (False, s)
           | Some NotADict \<Rightarrow> (False, s)
           | Some (Dict encs nms) \<Rightarrow>
               (let s1 = s\<lparr>known_encodings := (case encs of None \<Rightarrow> [] | Some x \<Rightarrow> x)\<rparr>;
                    s2 = s1\<lparr>known_names := (case nms of None \<Rightarrow> [] | Some x \<Rightarrow> x)\<rparr>
                in (case EmbeddingIndex e (known_encodings s2) (known_names s2) of
                      Inl err \<Rightarrow> (False, s2)
                    | Inr ix \<Rightarrow> (True, s2\<lparr>index := Some ix\<rparr>)))))"

text \<open>
  \<^verbatim>\<open>update_encodings\<close>. \<open>writable\<close> tells whether opening the path for writing and
  writing the bytes succeeds; when it does not, the exception is caught, nothing has
  been written and False is returned.
\<close>

definition update_encodings ::
  "ext \<Rightarrow> bool \<Rightarrow> bytes \<Rightarrow> fsys \<Rightarrow> service \<Rightarrow> bool \<times> fsys \<times> service" where
  "update_encodings e writable encodings_data fs s =
     (if writable then
        (let fs' = fs(encodings_file s \<mapsto> encodings_data);
             (ok, s') = load_encodings e fs' s
         in (ok, fs', s'))
      else (False, fs, s))"

text \<open>\<^verbatim>\<open>__init__\<close>: the defaults of every attribute, then \<^verbatim>\<open>self.load_encodings()\<close>.\<close>

definition init :: "ext \<Rightarrow> fsys \<Rightarrow> string \<Rightarrow> int \<Rightarrow> int \<Rightarrow> real \<Rightarrow> service" where
  "init e fs file cfps dfps scale =
     snd (load_encodings e fs
       \<lparr>encodings_file = file,
        recognition_threshold = 55 / 100,
        user_exit_frames = 12,
        pose_stride = 2,
        frontality_thr = 35,
        min_face_area_rel = 5 / 100,
        processing = False,
        recognition_queue = [],
        tracker = None,
        track_ok_frames = 0,
        no_face_frames = 0,
        pose_buffer = [],
        recognition_in_progress = False,
        result_displayed = False,
        lockout_active = False,
        lockout_start_time = 0,
        frame_count = 0,
        capture_fps = cfps,
        display_fps = dfps,
        video_scale_factor = scale,
        known_encodings = [],
        known_names = [],
        index = None,
        last_frame = None\<rparr>)"

subsection \<open>Recognition of one crop\<close>

definition UNKNOWN :: string where
  "UNKNOWN = ''Desconhecido''"

text \<open>
  The image handed to the face locator and the encoder: the crop, scaled up when its
  larger side is below 180 pixels, converted to RGB.
\<close>

definition face_rgb :: "ext \<Rightarrow> image \<Rightarrow> image" where
  "face_rgb e face_bgr =
     (let h = img_height face_bgr; w = img_width face_bgr;
          scale_up = (if 180 \<le> max h w then 1 else 180 / real (max 1 (max h w)));
          face_bgr' = (if 1 < scale_up then cv2_resize e face_bgr scale_up else face_bgr)
      in cv2_cvtColor e face_bgr')"

text \<open>
  \<^verbatim>\<open>_recognize_face_crop\<close>, as a function of the service it reads: what the call
  returns or raises. \<^verbatim>\<open>self.known_names[best_idx]\<close> raises IndexError when the list is
  too short.
\<close>

definition recognize_face_crop :: "ext \<Rightarrow> service \<Rightarrow> image \<Rightarrow> error + (string \<times> pyfloat)" where
  "recognize_face_crop e s face_bgr =
     (if img_size face_bgr = 0 then Inr (UNKNOWN, Finite 0)
      else
        (let rgb = face_rgb e face_bgr; locs = face_locations e rgb
         in if locs = [] then Inr (UNKNOWN, Finite 0)
            else
              (let encs = face_encodings e rgb [hd locs]
               in if encs = [] then Inr (UNKNOWN, Finite 0)
                  else
                    (let v = hd encs
                     in case index s of
                          None \<Rightarrow> Inr (UNKNOWN, Finite 0)
                        | Some ix \<Rightarrow>
                            if length (known_encodings s) = 0 then Inr (UNKNOWN, Finite 0)
                            else
                              (case query e ix v of
                                 Inl err \<Rightarrow> Inl err
                               | Inr (best_idx, dst) \<Rightarrow>
                                   if best_idx < 0 then Inr (UNKNOWN, Finite 0)
                                   else
                                     (let confidence = py_max (Finite 0) (float_sub (Finite 1) dst)
                                      in if float_lt dst (Finite (recognition_threshold s)) then
                                           (if nat best_idx < length (known_names s)
                                            then Inr (known_names s ! nat best_idx, confidence)
                                            else Inl IndexError)
                                         else Inr (UNKNOWN, confidence)))))))"

text \<open>
  \<^verbatim>\<open>_recognize_face_crop\<close> once more, in state-passing form: every statement hands the
  service on to the next, the call of \<^verbatim>\<open>self.index.query\<close> hands back the index object
  it worked on, and every \<^verbatim>\<open>return\<close> and every exception leaves with the service as it
  is at that point.
\<close>

definition recognize_face_crop_st :: "ext \<Rightarrow> image \<Rightarrow> service \<Rightarrow> (string \<times> pyfloat) outcome" where
  "recognize_face_crop_st e face_bgr s =
     (if img_size face_bgr = 0 then Returns (UNKNOWN, Finite 0) s
      else
        (let rgb = face_rgb e face_bgr; locs = face_locations e rgb
         in if locs = [] then Returns (UNKNOWN, Finite 0) s
            else
              (let encs = face_encodings e rgb [hd locs]
               in if encs = [] then Returns (UNKNOWN, Finite 0) s
                  else
                    (let v = hd encs
                     in case index s of
                          None \<Rightarrow> Returns (UNKNOWN, Finite 0) s
                        | Some ix \<Rightarrow>
                            if length (known_encodings s) = 0 then Returns (UNKNOWN, Finite 0) s
                            else
                              (case query_st e v ix of
                                 (answer, ix') \<Rightarrow>
                                   (let s1 = s\<lparr>index := Some ix'\<rparr>
                                    in case answer of
                                         Inl err \<Rightarrow> Raises err s1
                                       | Inr (best_idx, dst) \<Rightarrow>
                                           if best_idx < 0 then Returns (UNKNOWN, Finite 0) s1
                                           else
                                             (let confidence =
                                                    py_max (Finite 0) (float_sub (Finite 1) dst)
                                              in if float_lt dst (Finite (recognition_threshold s1))
                                                 then
                                                   (if nat best_idx < length (known_names s1)
                                                    then Returns (known_names s1 ! nat best_idx,
                                                                  confidence) s1
                                                    else Raises IndexError s1)
                                                 else Returns (UNKNOWN, confidence) s1)))))))"

text \<open>
  \<^verbatim>\<open>process_single_frame\<close>: \<^verbatim>\<open>return self._recognize_face_crop(frame)\<close>.
\<close>

definition process_single_frame :: "ext \<Rightarrow> image \<Rightarrow> service \<Rightarrow> (string \<times> pyfloat) outcome" where
  "process_single_frame e frame s = recognize_face_crop_st e frame s"

subsection \<open>The capture loop\<close>

type_synonym bbox = "int \<times> int \<times> int \<times> int"
type_synonym detection = "int \<times> int \<times> int \<times> int \<times> real"
type_synonym overlay = "int \<times> int \<times> int \<times> int \<times> string \<times> real"

text \<open>
  What one iteration of the capture loop observes from outside: the frame read from the
  camera (\<open>None\<close> when the read fails), the answer of \<^verbatim>\<open>self.tracker.update(frame)\<close> with
  its box already converted by \<^verbatim>\<open>int\<close>, and the answer of \<^verbatim>\<open>self.detector.detect(small)\<close>.
\<close>

record observation =
  camera_read :: "image option"
  tracker_result :: "bool \<times> bbox"
  faces :: "detection list"

text \<open>\<^verbatim>\<open>deque(maxlen=n).append(x)\<close>: the oldest entry leaves when the deque is full.\<close>

definition deque_append :: "nat \<Rightarrow> 'a list \<Rightarrow> 'a \<Rightarrow> 'a list" where
  "deque_append maxlen dq x =
     (let dq' = dq @ [x] in if maxlen < length dq' then tl dq' else dq')"

text \<open>
  \<^verbatim>\<open>Queue(maxsize=n).put_nowait(x)\<close>: raises \<^verbatim>\<open>queue.Full\<close> at once when the queue
  holds \<open>n\<close> items.
\<close>

definition put_nowait :: "nat \<Rightarrow> 'a list \<Rightarrow> 'a \<Rightarrow> error + 'a list" where
  "put_nowait maxsize q x =
     (if 0 < maxsize \<and> maxsize \<le> length q then Inl QueueFull else Inr (q @ [x]))"

definition recognition_queue_maxsize :: nat where
  "recognition_queue_maxsize = 1"

definition pose_buffer_maxlen :: nat where
  "pose_buffer_maxlen = 12"

text \<open>
  \<^verbatim>\<open>min(xs, key=k)\<close>: the first entry whose key is least; ValueError on an empty
  sequence.
\<close>

fun min_key_from :: "('a \<Rightarrow> 'k::linorder) \<Rightarrow> 'a \<Rightarrow> 'a list \<Rightarrow> 'a" where
  "min_key_from k best [] = best"
| "min_key_from k best (x # xs) =
     (if k x < k best then min_key_from k x xs else min_key_from k best xs)"

definition py_min :: "('a \<Rightarrow> 'k::linorder) \<Rightarrow> 'a list \<Rightarrow> error + 'a" where
  "py_min k xs = (case xs of [] \<Rightarrow> Inl ValueError | x # rest \<Rightarrow> Inr (min_key_from k x rest))"

text \<open>
  The key \<^verbatim>\<open>lambda t: (t[0], t[1])\<close> of a pose sample; pairs are ordered
  lexicographically, as Python orders tuples.
\<close>

definition sample_key :: "pose_sample \<Rightarrow> real \<times> real" where
  "sample_key t = (fst t, fst (snd t))"

definition select_candidate :: "pose_sample list \<Rightarrow> error + pose_sample" where
  "select_candidate buf = py_min sample_key buf"

text \<open>
  \<^verbatim>\<open>((x2-x1)*(y2-y1)) / float(frame.shape[0]*frame.shape[1])\<close>
\<close>

definition area_rel :: "image \<Rightarrow> int \<Rightarrow> int \<Rightarrow> int \<Rightarrow> int \<Rightarrow> error + real" where
  "area_rel frame x1 y1 x2 y2 =
     (if img_height frame * img_width frame = 0 then Inl ZeroDivisionError
      else Inr (real_of_int ((x2 - x1) * (y2 - y1)) / real (img_height frame * img_width frame)))"

text \<open>Lines 278 to 284: every \<open>pose_stride\<close>-th frame a pose sample is appended.\<close>

definition sample_pose ::
  "ext \<Rightarrow> image \<Rightarrow> bbox \<Rightarrow> image \<Rightarrow> service \<Rightarrow> error + service" where
  "sample_pose e frame box face_crop s =
     (case box of (x1, y1, x2, y2) \<Rightarrow>
        if pose_stride s = 0 then Inl ZeroDivisionError
        else if frame_count s mod pose_stride s = 0 then
          (case estimate_head_pose_angles e face_crop of
             None \<Rightarrow> Inr s
           | Some (yaw, pitch, roll) \<Rightarrow>
               (case area_rel frame x1 y1 x2 y2 of
                  Inl err \<Rightarrow> Inl err
                | Inr a \<Rightarrow>
                    (let score = \<bar>yaw\<bar> + (8 / 10) * \<bar>pitch\<bar> + (3 / 10) * \<bar>roll\<bar>
                     in Inr (s\<lparr>pose_buffer :=
                               deque_append pose_buffer_maxlen (pose_buffer s)
                                 (score, - a, face_crop, (yaw, pitch, roll))\<rparr>))))
        else Inr s)"

text \<open>
  Lines 290 to 295: the \<^verbatim>\<open>try\<close> around \<^verbatim>\<open>put_nowait\<close>. On \<^verbatim>\<open>queue.Full\<close> the handler
  passes, and the two assignments after the put have not run.
\<close>

definition submit :: "image \<Rightarrow> service \<Rightarrow> service" where
  "submit best_crop s =
     (case put_nowait recognition_queue_maxsize (recognition_queue s) best_crop of
        Inl err \<Rightarrow> s
      | Inr q \<Rightarrow> s\<lparr>recognition_queue := q, recognition_in_progress := True, pose_buffer := []\<rparr>)"

text \<open>Lines 285 to 295: candidate selection and submission.\<close>

definition select_and_submit :: "service \<Rightarrow> error + service" where
  "select_and_submit s =
     (if \<not> recognition_in_progress s \<and> \<not> result_displayed s
         \<and> recognition_queue s = [] \<and> 3 \<le> length (pose_buffer s) then
        (case select_candidate (pose_buffer s) of
           Inl err \<Rightarrow> Inl err
         | Inr (best_score, neg_area, best_crop, best_ang) \<Rightarrow>
             if best_score < frontality_thr s \<and> min_face_area_rel s \<le> - neg_area
             then Inr (submit best_crop s)
             else Inr s)
      else Inr s)"

definition clip_box :: "image \<Rightarrow> bbox \<Rightarrow> bbox" where
  "clip_box frame b =
     (case b of (x, y, w, h) \<Rightarrow>
        (max 0 x, max 0 y, min (int (img_width frame)) (x + w), min (int (img_height frame)) (y + h)))"

text \<open>\<^verbatim>\<open>_stop_tracker\<close> and \<^verbatim>\<open>_start_tracker\<close>\<close>

definition stop_tracker :: "service \<Rightarrow> service" where
  "stop_tracker s = s\<lparr>tracker := None, track_ok_frames := 0\<rparr>"

definition start_tracker :: "bbox \<Rightarrow> service \<Rightarrow> service" where
  "start_tracker box_xyxy s =
     (case box_xyxy of (x1, y1, x2, y2) \<Rightarrow>
        s\<lparr>tracker := Some (x1, y1, max 2 (x2 - x1), max 2 (y2 - y1)), track_ok_frames := 0\<rparr>)"

text \<open>Lines 271 to 302: the branch taken when a tracker exists.\<close>

definition track_step :: "ext \<Rightarrow> image \<Rightarrow> bool \<times> bbox \<Rightarrow> service \<Rightarrow> overlay list outcome" where
  "track_step e frame upd s =
     (case upd of (ok_tracker, b) \<Rightarrow>
        if ok_tracker then
          (let s1 = s\<lparr>track_ok_frames := track_ok_frames s + 1\<rparr>
           in case clip_box frame b of (x1, y1, x2, y2) \<Rightarrow>
                (let face_crop = crop frame y1 y2 x1 x2
                 in case sample_pose e frame (x1, y1, x2, y2) face_crop s1 of
                      Inl err \<Rightarrow> Raises err s1
                    | Inr s2 \<Rightarrow>
                        (case select_and_submit s2 of
                           Inl err \<Rightarrow> Raises err s2
                         | Inr s3 \<Rightarrow> Returns [(x1, y1, x2, y2, ''Rostro'', 0)] s3)))
        else
          Returns [] ((stop_tracker s)\<lparr>pose_buffer := [], no_face_frames := 0\<rparr>))"

definition box_area :: "detection \<Rightarrow> int" where
  "box_area b = (case b of (x1, y1, x2, y2, score) \<Rightarrow> (x2 - x1) * (y2 - y1))"

text \<open>
  Lines 305 to 315: the branch taken without a tracker. \<^verbatim>\<open>faces.sort(key=..., reverse=True)\<close>
  is a stable sort by decreasing area.
\<close>

definition detect_step :: "real \<Rightarrow> image \<Rightarrow> detection list \<Rightarrow> service \<Rightarrow> overlay list outcome" where
  "detect_step scale frame fs s =
     (if fs \<noteq> [] then
        (case hd (sort_key (\<lambda>b. - box_area b) fs) of (x1s, y1s, x2s, y2s, score) \<Rightarrow>
           if scale = 0 then Raises ZeroDivisionError s
           else
             (let x1 = py_int (real_of_int x1s / scale); y1 = py_int (real_of_int y1s / scale);
                  x2 = py_int (real_of_int x2s / scale); y2 = py_int (real_of_int y2s / scale)
              in case area_rel frame x1 y1 x2 y2 of
                   Inl err \<Rightarrow> Raises err s
                 | Inr a \<Rightarrow>
                     if min_face_area_rel s \<le> a then
                       Returns [(x1, y1, x2, y2, ''Rostro'', 0)]
                         ((start_tracker (x1, y1, x2, y2) s)\<lparr>pose_buffer := []\<rparr>)
                     else Returns [] s))
      else Returns [] s)"

text \<open>
  Lines 264 to 326: the body of the loop once a frame has been read. \<open>scale\<close> is the
  loop's local copy of \<^verbatim>\<open>video_scale_factor\<close>.
\<close>

definition capture_tick :: "ext \<Rightarrow> real \<Rightarrow> image \<Rightarrow> observation \<Rightarrow> service \<Rightarrow> overlay list outcome" where
  "capture_tick e scale frame ob s =
     (let s0 = s\<lparr>frame_count := frame_count s + 1\<rparr>
      in case (case tracker s0 of
                 Some t \<Rightarrow> track_step e frame (tracker_result ob) s0
               | None \<Rightarrow> detect_step scale frame (faces ob) s0) of
           Raises err s' \<Rightarrow> Raises err s'
         | Returns overlays s' \<Rightarrow>
             Returns overlays
               (s'\<lparr>last_frame :=
                     Some (case on_overlay e of None \<Rightarrow> frame | Some f \<Rightarrow> f frame overlays)\<rparr>))"

subsection \<open>The two threads\<close>

text \<open>
  The capture thread is \<open>None\<close> when it is not running and otherwise holds the locals of
  \<^verbatim>\<open>_capture_and_display_frames\<close>. The recognition thread is at one of the points where
  \<^verbatim>\<open>_process_recognition\<close> can be suspended: waiting on the queue, inside
  \<^verbatim>\<open>_recognize_face_crop\<close> with the crop it took, or inside \<^verbatim>\<open>time.sleep(1.0)\<close>, which
  returns no earlier than the time recorded.
\<close>

record capture_locals =
  frame_interval :: real
  last_capture :: real
  scale :: real

datatype worker_pc = Waiting | Recognizing image | Sleeping real | Exited

record sys =
  svc :: service
  capture :: "capture_locals option"
  worker :: worker_pc

text \<open>
  \<^verbatim>\<open>start_async_processing\<close>, after its check that the camera is open: nothing when
  already processing; otherwise the flag is set, the queue is drained and both threads
  start.
\<close>

definition start_async_processing :: "sys \<Rightarrow> sys" where
  "start_async_processing sy =
     (if processing (svc sy) then sy
      else
        \<lparr>svc = (svc sy)\<lparr>processing := True, recognition_queue := []\<rparr>,
         capture = Some \<lparr>frame_interval = max (1 / 1000) (1 / real_of_int (max 1 (capture_fps (svc sy)))),
                         last_capture = 0,
                         scale = video_scale_factor (svc sy)\<rparr>,
         worker = Waiting\<rparr>)"

text \<open>
  One iteration of the capture loop at time \<open>now\<close>, the camera being open: the loop
  ends when the run flag is down or the read fails; an iteration inside the frame
  interval only sleeps; an exception in the body ends the thread. The model takes an
  iteration, like a step of the recognition thread below, as one atomic step.
\<close>

definition capture_iter :: "ext \<Rightarrow> real \<Rightarrow> observation \<Rightarrow> sys \<Rightarrow> sys" where
  "capture_iter e now ob sy =
     (case capture sy of
        None \<Rightarrow> sy
      | Some loc \<Rightarrow>
          if \<not> processing (svc sy) then sy\<lparr>capture := None\<rparr>
          else if now - last_capture loc < frame_interval loc then sy
          else
            (case camera_read ob of
               None \<Rightarrow> sy\<lparr>capture := None\<rparr>
             | Some frame \<Rightarrow>
                 (case capture_tick e (scale loc) frame ob (svc sy) of
                    Returns overlays s' \<Rightarrow> sy\<lparr>svc := s', capture := Some (loc\<lparr>last_capture := now\<rparr>)\<rparr>
                  | Raises err s' \<Rightarrow> sy\<lparr>svc := s', capture := None\<rparr>)))"

text \<open>
  One step of the recognition thread at time \<open>now\<close>, from one suspension point to the
  next (lines 331 to 354).
\<close>

definition worker_step :: "ext \<Rightarrow> real \<Rightarrow> sys \<Rightarrow> sys" where
  "worker_step e now sy =
     (case worker sy of
        Exited \<Rightarrow> sy
      | Waiting \<Rightarrow>
          if \<not> processing (svc sy) then sy\<lparr>worker := Exited\<rparr>
          else
            (case recognition_queue (svc sy) of
               [] \<Rightarrow> sy
             | face_crop # q \<Rightarrow>
                 sy\<lparr>svc := (svc sy)\<lparr>recognition_queue := q\<rparr>, worker := Recognizing face_crop\<rparr>)
      | Recognizing face_crop \<Rightarrow>
          (case recognize_face_crop e (svc sy) face_crop of
             Inr (name, confidence) \<Rightarrow>
               sy\<lparr>svc := (stop_tracker ((svc sy)\<lparr>recognition_in_progress := False,
                                                  result_displayed := True\<rparr>))
                           \<lparr>lockout_active := True, lockout_start_time := now\<rparr>,
                  worker := Sleeping (now + 1)\<rparr>
           | Inl err \<Rightarrow>
               sy\<lparr>svc := (svc sy)\<lparr>recognition_in_progress := False\<rparr>, worker := Waiting\<rparr>)
      | Sleeping until \<Rightarrow>
          if now < until then sy
          else sy\<lparr>svc := (svc sy)\<lparr>result_displayed := False, lockout_active := False\<rparr>,
                  worker := Waiting\<rparr>)"

text \<open>
  A schedule is a list of timed events: an iteration of the capture loop with what it
  observes, or a step of the recognition thread.
\<close>

datatype event = Capture observation | Worker

definition step :: "ext \<Rightarrow> real \<times> event \<Rightarrow> sys \<Rightarrow> sys" where
  "step e tev sy =
     (case tev of
        (now, Capture ob) \<Rightarrow> capture_iter e now ob sy
      | (now, Worker) \<Rightarrow> worker_step e now sy)"

fun run :: "ext \<Rightarrow> (real \<times> event) list \<Rightarrow> sys \<Rightarrow> sys" where
  "run e [] sy = sy"
| "run e (tev # evs) sy = run e evs (step e tev sy)"

text \<open>The service an outcome leaves behind.\<close>

definition outcome_state :: "'a outcome \<Rightarrow> service" where
  "outcome_state r = (case r of Returns x s \<Rightarrow> s | Raises err s \<Rightarrow> s)"

text \<open>
  A system as it is after construction and \<^verbatim>\<open>start_async_processing\<close>.
\<close>

definition fresh :: "ext \<Rightarrow> fsys \<Rightarrow> string \<Rightarrow> int \<Rightarrow> int \<Rightarrow> real \<Rightarrow> sys" where
  "fresh e fs file cfps dfps scl =
     start_async_processing \<lparr>svc = init e fs file cfps dfps scl, capture = None, worker = Exited\<rparr>"

text \<open>
  How an iteration of the capture loop may leave the queue, given the service before
  and after: as it was, or with one item where it was empty and neither flag was set.
\<close>

definition enqueued :: "service \<Rightarrow> service \<Rightarrow> bool" where
  "enqueued s s' =
     (recognition_queue s' = recognition_queue s
      \<or> (\<not> recognition_in_progress s \<and> \<not> result_displayed s \<and> recognition_queue s = []
          \<and> length (recognition_queue s') = 1))"

subsection \<open>Predicates on schedules\<close>

text \<open>
  The recognition thread is inside its sleep until \<open>u\<close> with both flags set.
\<close>

definition in_lockout :: "real \<Rightarrow> sys \<Rightarrow> bool" where
  "in_lockout u sy = (worker sy = Sleeping u \<and> result_displayed (svc sy) \<and> lockout_active (svc sy))"

text \<open>
  No event of the schedule is a step of the recognition thread at time \<open>u\<close> or later.
\<close>

definition before_wake :: "real \<Rightarrow> (real \<times> event) list \<Rightarrow> bool" where
  "before_wake u evs = list_all (\<lambda>tev. fst tev < u \<or> snd tev \<noteq> Worker) evs"

text \<open>
  Outside the sleep both flags are down.
\<close>

definition lockout_consistent :: "sys \<Rightarrow> bool" where
  "lockout_consistent sy =
     ((\<exists>u. worker sy = Sleeping u) \<or> (\<not> result_displayed (svc sy) \<and> \<not> lockout_active (svc sy)))"

section \<open>Concrete instances\<close>

text \<open>
  A small world on which the definitions can be evaluated: collaborators that answer in
  the simplest way (the encoder returns the first pixel as a two-dimensional vector, the
  pose estimate takes the first pixel as the yaw), and an identity store with two
  entries under the bytes \<open>[1]\<close>, a ragged one under the bytes \<open>[2]\<close> and one with two
  encodings and a single name under the bytes \<open>[3]\<close>. The float32 norm is the exact
  one, which it is on the vectors used here: their entries and distances are small
  integers.
\<close>

definition example_ext :: ext where
  "example_ext =
     \<lparr>has_sklearn = False,
      sk_fit = (\<lambda>d. True),
      sk_kneighbors = (\<lambda>d v. Inr (0, Finite 0)),
      f32_norm_diff = (\<lambda>ps. Finite (sqrt (sum_list (map (\<lambda>(a, b). (a - b) * (a - b)) ps)))),
      pickle_load = (\<lambda>b. if b = [1] then Some (Dict (Some [[0, 0], [3, 4]]) (Some [''ana'', ''bruno'']))
                         else if b = [2] then Some (Dict (Some [[1, 2], [3]]) (Some [''carla'', ''davi'']))
                         else if b = [3] then Some (Dict (Some [[3, 4], [0, 0]]) (Some [''ana'']))
                         else None),
      cv2_resize = (\<lambda>img f. img),
      cv2_cvtColor = (\<lambda>img. img),
      face_locations = (\<lambda>img. if img_size img = 0 then [] else [(0, img_width img, img_height img, 0)]),
      face_encodings = (\<lambda>img locs. map (\<lambda>l. [real (hd (hd img)), 0]) locs),
      estimate_head_pose_angles = (\<lambda>img. if img_size img = 0 then None else Some (real (hd (hd img)), 0, 0)),
      on_overlay = None\<rparr>"

definition example_fs :: fsys where
  "example_fs = [''encodings.pickle'' \<mapsto> [1]]"

definition example_service :: service where
  "example_service = init example_ext example_fs ''encodings.pickle'' 15 15 (1 / 2)"

text \<open>A crop of two by two pixels whose first pixel is 0.\<close>

definition example_crop :: image where
  "example_crop = [[0, 0], [0, 0]]"

text \<open>
  The example service after it has loaded the store with two encodings and one name.
\<close>

definition example_unpaired_fs :: fsys where
  "example_unpaired_fs = [''encodings.pickle'' \<mapsto> [3]]"

definition example_unpaired :: service where
  "example_unpaired = snd (load_encodings example_ext example_unpaired_fs example_service)"

text \<open>
  A pose buffer of three samples, a frame of four by four pixels, what an iteration of
  the capture loop observes on it, and a service that is tracking with that buffer.
\<close>

definition example_buffer :: "pose_sample list" where
  "example_buffer =
     [(10, - (2 / 10), [[1]], (10, 0, 0)),
      (5, - (1 / 10), [[2]], (5, 0, 0)),
      (5, - (3 / 10), [[3]], (5, 0, 0))]"

definition example_frame :: image where
  "example_frame = [[0, 0, 0, 0], [0, 0, 0, 0], [0, 0, 0, 0], [0, 0, 0, 0]]"

definition example_observation :: observation where
  "example_observation =
     \<lparr>camera_read = Some example_frame,
      tracker_result = (True, (0, 0, 4, 4)),
      faces = [(0, 0, 2, 2, 9 / 10)]\<rparr>"

definition example_tracking :: service where
  "example_tracking = example_service\<lparr>tracker := Some (0, 0, 4, 4), pose_buffer := example_buffer\<rparr>"

text \<open>
  A schedule on the example: the first iteration finds the face and starts the tracker,
  the next five track it and collect three pose samples, the sixth submits the best
  crop; the recognition thread takes it, and two more iterations of the capture loop run
  while the crop is being recognised. \<open>example_recognizing\<close> is the system this
  schedule leads to.
\<close>

definition example_sys :: sys where
  "example_sys = fresh example_ext example_fs ''encodings.pickle'' 15 15 (1 / 2)"

definition example_schedule :: "(real \<times> event) list" where
  "example_schedule =
     [(1, Capture example_observation), (2, Capture example_observation),
      (3, Capture example_observation), (4, Capture example_observation),
      (5, Capture example_observation), (6, Capture example_observation),
      (7, Worker),
      (8, Capture example_observation), (9, Capture example_observation)]"

definition example_recognizing :: sys where
  "example_recognizing =
     \<lparr>svc = example_service
         \<lparr>processing := True, tracker := Some (0, 0, 4, 4),
          recognition_in_progress := True, recognition_queue := [],
          frame_count := 8, track_ok_frames := 7,
          pose_buffer := [(0, - 1, example_frame, (0, 0, 0))],
          last_frame := Some example_frame\<rparr>,
      capture = Some \<lparr>frame_interval = 1 / 15, last_capture = 9, scale = 1 / 2\<rparr>,
      worker = Recognizing example_frame\<rparr>"

text \<open>The tracking service with the queue occupied.\<close>

definition example_occupied :: service where
  "example_occupied = example_tracking\<lparr>recognition_queue := [[[1]]]\<rparr>"

text \<open>
  Events after the recognition of the example: two before the sleep may end, one after
  the recognition thread has woken.
\<close>

definition example_during_lockout :: "(real \<times> event) list" where
  "example_during_lockout = [(21 / 2, Capture example_observation), (43 / 4, Worker)]"

definition example_after_lockout :: "(real \<times> event) list" where
  "example_after_lockout = [(12, Capture example_observation)]"

section \<open>Properties\<close>

subsection \<open>Construction and the examples\<close>

lemma load_encodings_config:
  "recognition_threshold (snd (load_encodings e fs s)) = recognition_threshold s"
  "frontality_thr (snd (load_encodings e fs s)) = frontality_thr s"
  "min_face_area_rel (snd (load_encodings e fs s)) = min_face_area_rel s"
  "pose_stride (snd (load_encodings e fs s)) = pose_stride s"
  "recognition_queue (snd (load_encodings e fs s)) = recognition_queue s"
  "pose_buffer (snd (load_encodings e fs s)) = pose_buffer s"
  "tracker (snd (load_encodings e fs s)) = tracker s"
  "recognition_in_progress (snd (load_encodings e fs s)) = recognition_in_progress s"
  "result_displayed (snd (load_encodings e fs s)) = result_displayed s"
  "lockout_active (snd (load_encodings e fs s)) = lockout_active s"
  "processing (snd (load_encodings e fs s)) = processing s"
  "frame_count (snd (load_encodings e fs s)) = frame_count s"
  "capture_fps (snd (load_encodings e fs s)) = capture_fps s"
  "video_scale_factor (snd (load_encodings e fs s)) = video_scale_factor s"
  by (simp_all add: load_encodings_def Let_def split: option.splits pickled.splits sum.splits)

lemma init_defaults:
  "recognition_threshold (init e fs file cf df sc) = 55 / 100"
  "frontality_thr (init e fs file cf df sc) = 35"
  "min_face_area_rel (init e fs file cf df sc) = 5 / 100"
  "pose_stride (init e fs file cf df sc) = 2"
  "recognition_queue (init e fs file cf df sc) = []"
  "pose_buffer (init e fs file cf df sc) = []"
  "tracker (init e fs file cf df sc) = None"
  "\<not> recognition_in_progress (init e fs file cf df sc)"
  "\<not> result_displayed (init e fs file cf df sc)"
  "\<not> lockout_active (init e fs file cf df sc)"
  "\<not> processing (init e fs file cf df sc)"
  "frame_count (init e fs file cf df sc) = 0"
  "capture_fps (init e fs file cf df sc) = cf"
  "video_scale_factor (init e fs file cf df sc) = sc"
  by (simp_all add: init_def load_encodings_config)

lemma example_service_known:
  "known_encodings example_service = [[0, 0], [3, 4]]"
  "known_names example_service = [''ana'', ''bruno'']"
  "index example_service = Some \<lparr>names = [''ana'', ''bruno''], data = [[0, 0], [3, 4]], nn = False\<rparr>"
  by (simp_all add: example_service_def init_def load_encodings_def example_fs_def example_ext_def
      EmbeddingIndex_def np_asarray_def)

lemma example_query:
  "query example_ext \<lparr>names = [''ana'', ''bruno''], data = [[0, 0], [3, 4]], nn = False\<rparr> [0, 0] = Inr (0, Finite 0)"
  by (simp add: query_def broadcast_pairs_def example_ext_def argmin_def)

subsection \<open>The index\<close>











text \<open>
  The state-passing form of the query gives the same answer and hands back the index
  object unchanged.
\<close>

lemma query_st_query: "query_st e v ix = (query e ix v, ix)"
  by (simp add: query_st_def query_def Let_def split: sum.splits prod.splits)

text \<open>
  A load that returns True leaves an index built over exactly the names and encodings
  it has assigned.
\<close>

lemma load_encodings_index:
  assumes "load_encodings e fs s = (True, s')"
  shows "\<exists>ix. index s' = Some ix \<and> data ix = known_encodings s' \<and> names ix = known_names s'"
proof -
  have asarray: "np_asarray xs = Inr d \<Longrightarrow> d = xs" for xs d
    by (auto simp add: np_asarray_def split: list.splits if_splits)
  have built: "EmbeddingIndex e xs ns = Inr ix \<Longrightarrow> data ix = xs \<and> names ix = ns" for xs ns ix
    by (cases "xs = []") (auto simp add: EmbeddingIndex_def split: sum.splits if_splits dest: asarray)
  from assms show ?thesis
    by (auto simp add: load_encodings_def Let_def
        split: option.splits pickled.splits sum.splits dest: built)
qed

subsection \<open>Recognition of one crop\<close>

text \<open>
  The example service recognises the example crop as the first identity, at distance 0.
\<close>

lemma example_face:
  "img_size example_crop \<noteq> 0"
  "face_rgb example_ext example_crop = example_crop"
  "face_locations example_ext example_crop = [(0, 2, 2, 0)]"
  "face_encodings example_ext example_crop [(0, 2, 2, 0)] = [[0, 0]]"
  by (simp_all add: face_rgb_def example_ext_def example_crop_def img_size_def img_height_def
      img_width_def)

lemma example_recognize_ana:
  "recognize_face_crop example_ext example_service example_crop = Inr (''ana'', Finite 1)"
proof -
  have thr: "recognition_threshold example_service = 55 / 100"
    by (simp add: example_service_def init_defaults)
  show ?thesis
    by (simp add: recognize_face_crop_def example_face example_service_known example_query thr
        py_max_def)
qed

text \<open>
  The store with two encodings and one name loads, and the service then holds two
  encodings, one name and an index over them.
\<close>

lemma example_unpaired_loaded:
  "fst (load_encodings example_ext example_unpaired_fs example_service)"
  "known_encodings example_unpaired = [[3, 4], [0, 0]]"
  "known_names example_unpaired = [''ana'']"
  "index example_unpaired = Some \<lparr>names = [''ana''], data = [[3, 4], [0, 0]], nn = False\<rparr>"
  "recognition_threshold example_unpaired = 55 / 100"
proof -
  have f: "encodings_file example_service = ''encodings.pickle''"
    by (simp add: example_service_def init_def load_encodings_def Let_def
        split: option.splits pickled.splits sum.splits)
  have p: "pickle_load example_ext [3] = Some (Dict (Some [[3, 4], [0, 0]]) (Some [''ana'']))"
    by (simp add: example_ext_def)
  have h: "has_sklearn example_ext = False"
    by (simp add: example_ext_def)
  have r: "EmbeddingIndex example_ext [[3, 4], [0, 0]] [''ana'']
             = Inr \<lparr>names = [''ana''], data = [[3, 4], [0, 0]], nn = False\<rparr>"
    by (simp add: EmbeddingIndex_def np_asarray_def h)
  have l: "load_encodings example_ext example_unpaired_fs example_service
             = (True, example_service\<lparr>known_encodings := [[3, 4], [0, 0]], known_names := [''ana''],
                  index := Some \<lparr>names = [''ana''], data = [[3, 4], [0, 0]], nn = False\<rparr>\<rparr>)"
    by (simp add: load_encodings_def example_unpaired_fs_def f p r)
  show "fst (load_encodings example_ext example_unpaired_fs example_service)"
    by (simp add: l)
  show "known_encodings example_unpaired = [[3, 4], [0, 0]]"
    by (simp add: example_unpaired_def l)
  show "known_names example_unpaired = [''ana'']"
    by (simp add: example_unpaired_def l)
  show "index example_unpaired = Some \<lparr>names = [''ana''], data = [[3, 4], [0, 0]], nn = False\<rparr>"
    by (simp add: example_unpaired_def l)
  show "recognition_threshold example_unpaired = 55 / 100"
    by (simp add: example_unpaired_def load_encodings_config example_service_def init_defaults)
qed

lemma example_unpaired_query:
  "query example_ext \<lparr>names = [''ana''], data = [[3, 4], [0, 0]], nn = False\<rparr> [0, 0]
     = Inr (1, Finite 0)"
  by (simp add: query_def broadcast_pairs_def example_ext_def argmin_def)




text \<open>
  Claim C7. The recognition returns the sentinel \<^verbatim>\<open>('Desconhecido', 0.0)\<close> when the crop
  is empty, when no face is located, when no embedding is produced, and when there is
  no known identity: the service holds no index, or \<open>known_encodings\<close> is empty, or the
  index has no rows. A query on an index without rows answers \<^verbatim>\<open>(-1, inf)\<close>.
\<close>

theorem recognize_unknown_sentinel:
  assumes "img_size face = 0
           \<or> face_locations e (face_rgb e face) = []
           \<or> face_encodings e (face_rgb e face) [hd (face_locations e (face_rgb e face))] = []
           \<or> index s = None
           \<or> known_encodings s = []
           \<or> (\<exists>ix. index s = Some ix \<and> data ix = [])"
  shows "recognize_face_crop e s face = Inr (UNKNOWN, Finite 0)
         \<and> (\<forall>ix v. data ix = [] \<longrightarrow> query e ix v = Inr (- 1, PosInf))"
proof -
  have q: "query e ix v = Inr (- 1, PosInf)" if "data ix = []" for ix v
    using that by (simp add: query_def)
  have "recognize_face_crop e s face = Inr (UNKNOWN, Finite 0)"
    using assms q
    by (auto simp add: recognize_face_crop_def Let_def split: option.splits sum.splits)
  with q show ?thesis by blast
qed

theorem recognize_unknown_sentinel_witness:
  "known_encodings (init example_ext Map.empty ''encodings.pickle'' 15 15 (1 / 2)) = []
   \<and> recognize_face_crop example_ext (init example_ext Map.empty ''encodings.pickle'' 15 15 (1 / 2)) [[0]]
       = Inr (UNKNOWN, Finite 0)
   \<and> query example_ext \<lparr>names = [], data = [], nn = False\<rparr> [0, 0] = Inr (- 1, PosInf)"
proof -
  have k: "known_encodings (init example_ext Map.empty ''encodings.pickle'' 15 15 (1 / 2)) = []"
    by (simp add: init_def load_encodings_def)
  have d: "data \<lparr>names = [], data = [], nn = False\<rparr> = []"
    by simp
  from recognize_unknown_sentinel
         [of "[[0]]" example_ext "init example_ext Map.empty ''encodings.pickle'' 15 15 (1 / 2)"]
       k d
  show ?thesis by blast
qed

text \<open>
  Assigning to an attribute the value it already has leaves the service as it is.
\<close>

lemma service_index_same: "index s = Some ix \<Longrightarrow> s\<lparr>index := Some ix\<rparr> = s"
  by (cases s) simp

text \<open>
  Claim C10. \<^verbatim>\<open>process_single_frame\<close> leaves the service as it found it, whatever the
  frame and on every path through \<^verbatim>\<open>_recognize_face_crop\<close>, whether it returns or
  raises: tracker, pose buffer, queue, flags, known names, known encodings and the index
  are all fields of the service. What it returns or raises is what
  \<^verbatim>\<open>_recognize_face_crop\<close> gives on that service.
\<close>

theorem process_single_frame_keeps_service:
  "outcome_state (process_single_frame e frame s) = s
   \<and> process_single_frame e frame s
       = (case recognize_face_crop e s frame of Inl err \<Rightarrow> Raises err s | Inr r \<Rightarrow> Returns r s)"
proof -
  have agree: "recognize_face_crop_st e frame s
                 = (case recognize_face_crop e s frame of
                      Inl err \<Rightarrow> Raises err s | Inr r \<Rightarrow> Returns r s)"
  proof (cases "index s")
    case None
    then show ?thesis
      by (simp add: recognize_face_crop_st_def recognize_face_crop_def Let_def)
  next
    case (Some ix)
    then show ?thesis
      by (simp add: recognize_face_crop_st_def recognize_face_crop_def Let_def query_st_query
          service_index_same split: sum.splits prod.splits)
  qed
  have "outcome_state (recognize_face_crop_st e frame s) = s"
    unfolding agree by (simp add: outcome_state_def split: sum.splits)
  with agree show ?thesis
    by (simp add: process_single_frame_def)
qed

theorem process_single_frame_keeps_service_witness:
  "process_single_frame example_ext example_crop example_service = Returns (''ana'', Finite 1) example_service
   \<and> outcome_state (process_single_frame example_ext example_crop example_unpaired) = example_unpaired
   \<and> process_single_frame example_ext example_crop example_unpaired = Raises IndexError example_unpaired"
proof -
  have u: "recognize_face_crop example_ext example_unpaired example_crop = Inl IndexError"
    by (simp add: recognize_face_crop_def example_face example_unpaired_loaded
        example_unpaired_query)
  from process_single_frame_keeps_service [of example_ext "example_crop" example_service]
       process_single_frame_keeps_service [of example_ext "example_crop" example_unpaired]
       example_recognize_ana u
  show ?thesis by (simp add: outcome_state_def)
qed

subsection \<open>The identity store\<close>

text \<open>
  A load that fails before the first assignment (the file is missing, it cannot be
  unpickled, or the object is not a dictionary) leaves the service unchanged.
\<close>

lemma load_encodings_failure_before_assignment:
  assumes "fs (encodings_file s) = None
           \<or> (\<exists>b. fs (encodings_file s) = Some b \<and> (pickle_load e b = None \<or> pickle_load e b = Some NotADict))"
  shows "load_encodings e fs s = (False, s)"
  using assms by (auto simp add: load_encodings_def)

text \<open>
  Claim C8. A load can also fail while the index is built, after \<open>known_encodings\<close> and
  \<open>known_names\<close> have been assigned. On a store whose encodings are ragged the load
  returns False, the service holds the new names and encodings, and the index is still
  the one built from the old ones.
\<close>

theorem load_encodings_failure_not_atomic:
  "load_encodings example_ext [''encodings.pickle'' \<mapsto> [2]] example_service
     = (False, example_service\<lparr>known_encodings := [[1, 2], [3]], known_names := [''carla'', ''davi'']\<rparr>)
   \<and> known_encodings example_service = [[0, 0], [3, 4]]
   \<and> known_names example_service = [''ana'', ''bruno'']
   \<and> index (snd (load_encodings example_ext [''encodings.pickle'' \<mapsto> [2]] example_service))
       = Some \<lparr>names = [''ana'', ''bruno''], data = [[0, 0], [3, 4]], nn = False\<rparr>"
proof -
  have f: "encodings_file example_service = ''encodings.pickle''"
    by (simp add: example_service_def init_def load_encodings_def Let_def
        split: option.splits pickled.splits sum.splits)
  have p: "pickle_load example_ext [2] = Some (Dict (Some [[1, 2], [3]]) (Some [''carla'', ''davi'']))"
    by (simp add: example_ext_def)
  have r: "EmbeddingIndex example_ext [[1, 2], [3]] [''carla'', ''davi''] = Inl ValueError"
    by (simp add: EmbeddingIndex_def np_asarray_def)
  have l: "load_encodings example_ext [''encodings.pickle'' \<mapsto> [2]] example_service
     = (False, example_service\<lparr>known_encodings := [[1, 2], [3]], known_names := [''carla'', ''davi'']\<rparr>)"
    by (simp add: load_encodings_def f p r)
  show ?thesis
    unfolding l by (simp add: example_service_known)
qed

text \<open>
  Claim C9. When the bytes \<open>B\<close> unpickle to a dictionary with the encodings \<open>encs\<close> and
  the names \<open>nms\<close>, the vectors have one length, the write succeeds and scikit-learn,
  where it is used, accepts the array, \<^verbatim>\<open>update_encodings\<close> stores \<open>B\<close> under the path,
  returns True and leaves exactly \<open>encs\<close> and \<open>nms\<close>, in their order, in the service,
  with an index built over them. The two sequences need not have the same length for
  this.
\<close>

theorem update_encodings_round_trip:
  assumes "pickle_load e B = Some (Dict (Some encs) (Some nms))"
    and "list_all (\<lambda>q. length q = n) encs"
    and "\<not> has_sklearn e \<or> length encs < 5 \<or> sk_fit e encs"
  shows "update_encodings e True B fs s =
           (True, fs(encodings_file s \<mapsto> B),
            s\<lparr>known_encodings := encs, known_names := nms,
              index := Some \<lparr>names = nms, data = encs, nn = (has_sklearn e \<and> 5 \<le> length encs)\<rparr>\<rparr>)"
proof -
  have a: "np_asarray encs = Inr encs"
    using assms(2) by (cases encs) (auto simp add: np_asarray_def list_all_iff)
  have ix: "EmbeddingIndex e encs nms =
              Inr \<lparr>names = nms, data = encs, nn = (has_sklearn e \<and> 5 \<le> length encs)\<rparr>"
    using assms(3) by (cases "encs = []") (auto simp add: EmbeddingIndex_def a)
  show ?thesis
    by (simp add: update_encodings_def load_encodings_def assms(1) ix)
qed

theorem update_encodings_round_trip_witness:
  "pickle_load example_ext [1] = Some (Dict (Some [[0, 0], [3, 4]]) (Some [''ana'', ''bruno'']))
   \<and> list_all (\<lambda>q. length q = 2) [[0, 0], [3, 4 :: real]]
   \<and> \<not> has_sklearn example_ext
   \<and> fst (update_encodings example_ext True [1] Map.empty example_service)
   \<and> known_encodings (snd (snd (update_encodings example_ext True [1] Map.empty example_service)))
        = [[0, 0], [3, 4]]
   \<and> known_names (snd (snd (update_encodings example_ext True [1] Map.empty example_service)))
        = [''ana'', ''bruno'']"
proof -
  have p: "pickle_load example_ext [1] = Some (Dict (Some [[0, 0], [3, 4]]) (Some [''ana'', ''bruno'']))"
    by (simp add: example_ext_def)
  have r: "list_all (\<lambda>q. length q = 2) [[0, 0], [3, 4 :: real]]"
    by simp
  have k: "\<not> has_sklearn example_ext"
    by (simp add: example_ext_def)
  from k have k': "\<not> has_sklearn example_ext \<or> length [[0, 0], [3, 4 :: real]] < 5
                   \<or> sk_fit example_ext [[0, 0], [3, 4]]"
    by simp
  from update_encodings_round_trip [OF p r k', of Map.empty example_service] p r k
  show ?thesis by simp
qed

subsection \<open>Candidate selection\<close>

lemma min_key_from_mem: "min_key_from k b xs \<in> set (b # xs)"
  by (induction xs arbitrary: b) (auto split: if_splits)

lemma min_key_from_le_start: "k (min_key_from k b xs) \<le> k b"
proof (induction xs arbitrary: b)
  case Nil
  show ?case by simp
next
  case (Cons x xs)
  show ?case
  proof (cases "k x < k b")
    case True
    have "k (min_key_from k x xs) \<le> k x" by (rule Cons.IH)
    with True show ?thesis by simp
  next
    case False
    with Cons.IH [of b] show ?thesis by simp
  qed
qed

lemma min_key_from_least: "x \<in> set (b # xs) \<Longrightarrow> k (min_key_from k b xs) \<le> k x"
proof (induction xs arbitrary: b)
  case Nil
  then show ?case by simp
next
  case (Cons y ys)
  show ?case
  proof (cases "k y < k b")
    case True
    from Cons.prems have "x = b \<or> x \<in> set (y # ys)" by auto
    then show ?thesis
    proof
      assume "x = b"
      with True min_key_from_le_start [of k y ys] show ?thesis by simp
    next
      assume "x \<in> set (y # ys)"
      with True Cons.IH [of y] show ?thesis by simp
    qed
  next
    case False
    from Cons.prems have "x = y \<or> x \<in> set (b # ys)" by auto
    then show ?thesis
    proof
      assume "x = y"
      with False min_key_from_le_start [of k b ys] show ?thesis by simp
    next
      assume "x \<in> set (b # ys)"
      with False Cons.IH [of b] show ?thesis by simp
    qed
  qed
qed

lemma select_candidate_Inr:
  assumes "buf \<noteq> []"
  shows "\<exists>b. select_candidate buf = Inr b \<and> b \<in> set buf \<and> (\<forall>x \<in> set buf. sample_key b \<le> sample_key x)"
proof -
  from assms obtain y ys where buf: "buf = y # ys" by (cases buf) auto
  have "select_candidate buf = Inr (min_key_from sample_key y ys)"
    by (simp add: select_candidate_def py_min_def buf)
  moreover have "min_key_from sample_key y ys \<in> set buf"
    unfolding buf by (rule min_key_from_mem)
  moreover have "\<forall>x \<in> set buf. sample_key (min_key_from sample_key y ys) \<le> sample_key x"
    unfolding buf by (blast intro: min_key_from_least)
  ultimately show ?thesis by blast
qed

text \<open>
  Claim C3. The candidate is a function of the buffer alone. On a buffer of at least
  three samples it is a sample of the buffer whose key \<^verbatim>\<open>(score, -area)\<close> is least in the
  lexicographic order: no sample has a lower score, and among the samples with the same
  score none has a larger area.
\<close>

theorem select_candidate_minimal:
  assumes "3 \<le> length buf"
  shows "\<exists>b. select_candidate buf = Inr b \<and> b \<in> set buf
           \<and> (\<forall>x \<in> set buf. sample_key b \<le> sample_key x)
           \<and> (\<forall>x \<in> set buf. fst b \<le> fst x)
           \<and> (\<forall>x \<in> set buf. fst x = fst b \<longrightarrow> - fst (snd x) \<le> - fst (snd b))"
proof -
  from assms have "buf \<noteq> []" by auto
  from select_candidate_Inr [OF this] obtain b where
    b: "select_candidate buf = Inr b" "b \<in> set buf" "\<forall>x \<in> set buf. sample_key b \<le> sample_key x"
    by blast
  have "fst b \<le> fst x \<and> (fst x = fst b \<longrightarrow> - fst (snd x) \<le> - fst (snd b))" if "x \<in> set buf" for x
  proof -
    from b(3) that have "sample_key b \<le> sample_key x" by blast
    then show ?thesis
      by (auto simp add: sample_key_def less_eq_prod_def)
  qed
  with b show ?thesis by blast
qed

theorem select_candidate_minimal_witness:
  "3 \<le> length example_buffer
   \<and> select_candidate example_buffer = Inr (5, - (3 / 10), [[3]], (5, 0, 0))
   \<and> (\<exists>b. select_candidate example_buffer = Inr b \<and> b \<in> set example_buffer
           \<and> (\<forall>x \<in> set example_buffer. sample_key b \<le> sample_key x)
           \<and> (\<forall>x \<in> set example_buffer. fst b \<le> fst x)
           \<and> (\<forall>x \<in> set example_buffer. fst x = fst b \<longrightarrow> - fst (snd x) \<le> - fst (snd b)))"
proof -
  have l: "3 \<le> length example_buffer"
    by (simp add: example_buffer_def)
  have s: "select_candidate example_buffer = Inr (5, - (3 / 10), [[3]], (5, 0, 0))"
    by (simp add: example_buffer_def select_candidate_def py_min_def sample_key_def less_prod_def)
  from l s select_candidate_minimal [OF l] show ?thesis by blast
qed

subsection \<open>Submission to the queue\<close>

lemma sample_pose_fields:
  assumes "sample_pose e frame box face_crop s = Inr s2"
  shows "recognition_in_progress s2 = recognition_in_progress s"
    and "result_displayed s2 = result_displayed s"
    and "recognition_queue s2 = recognition_queue s"
    and "frontality_thr s2 = frontality_thr s"
    and "min_face_area_rel s2 = min_face_area_rel s"
    and "tracker s2 = tracker s"
    and "lockout_active s2 = lockout_active s"
  using assms
  by (auto simp add: sample_pose_def Let_def split: prod.splits if_splits option.splits sum.splits)

lemma submit_empty_queue:
  "recognition_queue s = [] \<Longrightarrow>
   submit c s = s\<lparr>recognition_queue := [c], recognition_in_progress := True, pose_buffer := []\<rparr>"
  by (simp add: submit_def put_nowait_def recognition_queue_maxsize_def)

lemma submit_full_queue:
  "recognition_queue s \<noteq> [] \<Longrightarrow> submit c s = s"
  by (cases "recognition_queue s") (simp_all add: submit_def put_nowait_def recognition_queue_maxsize_def)

text \<open>
  When selection runs and the winner passes both gates, the crop is queued, the flag is
  set and the buffer is cleared.
\<close>

lemma select_and_submit_gate:
  assumes "\<not> recognition_in_progress s" "\<not> result_displayed s" "recognition_queue s = []"
    and "3 \<le> length (pose_buffer s)"
    and "select_candidate (pose_buffer s) = Inr (best_score, neg_area, best_crop, best_ang)"
    and "best_score < frontality_thr s" "min_face_area_rel s \<le> - neg_area"
  shows "select_and_submit s =
           Inr (s\<lparr>recognition_queue := [best_crop], recognition_in_progress := True, pose_buffer := []\<rparr>)"
  using assms by (simp add: select_and_submit_def submit_empty_queue)

text \<open>
  Claim C4. On an iteration with a tracker whose update succeeds, where selection runs
  (no recognition in progress, no result displayed, the queue empty, at least three
  samples in the buffer once this frame's sample is in) and the winner's score is below
  \<open>frontality_thr\<close> and its area ratio at least \<open>min_face_area_rel\<close>, the iteration
  returns with the winner's crop in the queue, the flag set and the buffer empty. The
  queue was seen empty, so the put cannot find it full. The two thresholds are 35 and
  0.05 after construction.
\<close>

theorem capture_tick_submits_and_clears:
  assumes trk: "tracker s = Some t"
    and upd: "tracker_result ob = (True, b)"
    and box: "clip_box frame b = (x1, y1, x2, y2)"
    and smp: "sample_pose e frame (x1, y1, x2, y2) (crop frame y1 y2 x1 x2)
                (s\<lparr>frame_count := frame_count s + 1, track_ok_frames := track_ok_frames s + 1\<rparr>) = Inr s2"
    and gate: "\<not> recognition_in_progress s" "\<not> result_displayed s" "recognition_queue s = []"
      "3 \<le> length (pose_buffer s2)"
    and best: "select_candidate (pose_buffer s2) = Inr (best_score, neg_area, best_crop, best_ang)"
    and thr: "best_score < frontality_thr s" "min_face_area_rel s \<le> - neg_area"
  shows "(\<exists>overlays s'. capture_tick e sc frame ob s = Returns overlays s'
            \<and> pose_buffer s' = [] \<and> recognition_queue s' = [best_crop]
            \<and> recognition_in_progress s')
         \<and> frontality_thr (init e fs file cf df scl) = 35
         \<and> min_face_area_rel (init e fs file cf df scl) = 5 / 100"
proof -
  let ?s1 = "s\<lparr>frame_count := frame_count s + 1, track_ok_frames := track_ok_frames s + 1\<rparr>"
  have g2: "\<not> recognition_in_progress s2" "\<not> result_displayed s2" "recognition_queue s2 = []"
    "best_score < frontality_thr s2" "min_face_area_rel s2 \<le> - neg_area"
    using sample_pose_fields [OF smp] gate thr by simp_all
  have sel: "select_and_submit s2 =
               Inr (s2\<lparr>recognition_queue := [best_crop], recognition_in_progress := True, pose_buffer := []\<rparr>)"
    by (rule select_and_submit_gate [OF g2(1) g2(2) g2(3) gate(4) best g2(4) g2(5)])
  have trk1: "track_step e frame (True, b) (s\<lparr>frame_count := Suc (frame_count s)\<rparr>) =
          Returns [(x1, y1, x2, y2, ''Rostro'', 0)]
            (s2\<lparr>recognition_queue := [best_crop], recognition_in_progress := True, pose_buffer := []\<rparr>)"
    using smp sel by (simp add: track_step_def box Let_def)
  have "capture_tick e sc frame ob s =
          Returns [(x1, y1, x2, y2, ''Rostro'', 0)]
            (s2\<lparr>recognition_queue := [best_crop], recognition_in_progress := True, pose_buffer := [],
                last_frame := Some (case on_overlay e of None \<Rightarrow> frame
                                    | Some f \<Rightarrow> f frame [(x1, y1, x2, y2, ''Rostro'', 0)])\<rparr>)"
    using trk1 by (simp add: capture_tick_def trk upd)
  then show ?thesis
    by (simp add: init_defaults)
qed

lemma example_tracking_fields:
  "tracker example_tracking = Some (0, 0, 4, 4)"
  "pose_buffer example_tracking = example_buffer"
  "\<not> recognition_in_progress example_tracking"
  "\<not> result_displayed example_tracking"
  "recognition_queue example_tracking = []"
  "frontality_thr example_tracking = 35"
  "min_face_area_rel example_tracking = 5 / 100"
  "pose_stride example_tracking = 2"
  "frame_count example_tracking = 0"
  by (simp_all add: example_tracking_def example_service_def init_defaults)

theorem capture_tick_submits_and_clears_witness:
  "tracker example_tracking = Some (0, 0, 4, 4)
   \<and> tracker_result example_observation = (True, (0, 0, 4, 4))
   \<and> \<not> recognition_in_progress example_tracking
   \<and> \<not> result_displayed example_tracking
   \<and> recognition_queue example_tracking = []
   \<and> 3 \<le> length example_buffer
   \<and> select_candidate example_buffer = Inr (5, - (3 / 10), [[3]], (5, 0, 0))
   \<and> 5 < frontality_thr example_tracking
   \<and> min_face_area_rel example_tracking \<le> - (- (3 / 10))
   \<and> (\<exists>overlays s'. capture_tick example_ext (1 / 2) example_frame example_observation example_tracking
                        = Returns overlays s'
          \<and> pose_buffer s' = [] \<and> recognition_queue s' = [[[3]]] \<and> recognition_in_progress s')"
proof -
  let ?s1 = "example_tracking\<lparr>frame_count := frame_count example_tracking + 1,
                             track_ok_frames := track_ok_frames example_tracking + 1\<rparr>"
  have upd: "tracker_result example_observation = (True, (0, 0, 4, 4))"
    by (simp add: example_observation_def)
  have box: "clip_box example_frame (0, 0, 4, 4) = (0, 0, 4, 4)"
    by (simp add: clip_box_def example_frame_def img_width_def img_height_def)
  have smp: "sample_pose example_ext example_frame (0, 0, 4, 4) (crop example_frame 0 4 0 4) ?s1 = Inr ?s1"
    by (simp add: sample_pose_def example_tracking_fields)
  have buf: "pose_buffer ?s1 = example_buffer"
    by (simp add: example_tracking_fields)
  have len: "3 \<le> length (pose_buffer ?s1)"
    by (simp add: example_tracking_fields example_buffer_def)
  have sel: "select_candidate (pose_buffer ?s1) = Inr (5, - (3 / 10), [[3]], (5, 0, 0))"
    unfolding buf
    by (simp add: example_buffer_def select_candidate_def py_min_def sample_key_def less_prod_def)
  have t1: "(5 :: real) < frontality_thr example_tracking"
    by (simp add: example_tracking_fields)
  have t2: "min_face_area_rel example_tracking \<le> - (- (3 / 10))"
    by (simp add: example_tracking_fields)
  from capture_tick_submits_and_clears
         [OF example_tracking_fields(1) upd box smp example_tracking_fields(3)
             example_tracking_fields(4) example_tracking_fields(5) len sel t1 t2,
          of "1 / 2"]
  have "\<exists>overlays s'. capture_tick example_ext (1 / 2) example_frame example_observation example_tracking
                        = Returns overlays s'
          \<and> pose_buffer s' = [] \<and> recognition_queue s' = [[[3]]] \<and> recognition_in_progress s'"
    by blast
  with upd example_tracking_fields len sel t1 t2 buf show ?thesis
    by simp
qed

subsection \<open>The example schedule\<close>

lemma example_service_fields:
  "recognition_threshold example_service = 55 / 100"
  "frontality_thr example_service = 35"
  "min_face_area_rel example_service = 5 / 100"
  "pose_stride example_service = 2"
  "recognition_queue example_service = []"
  "pose_buffer example_service = []"
  "tracker example_service = None"
  "\<not> recognition_in_progress example_service"
  "\<not> result_displayed example_service"
  "\<not> lockout_active example_service"
  "\<not> processing example_service"
  "frame_count example_service = 0"
  "capture_fps example_service = 15"
  "video_scale_factor example_service = 1 / 2"
  by (simp_all add: example_service_def init_defaults)

lemmas tick_defs = step_def capture_iter_def capture_tick_def track_step_def detect_step_def
  sample_pose_def select_and_submit_def select_candidate_def py_min_def sample_key_def submit_def
  put_nowait_def recognition_queue_maxsize_def pose_buffer_maxlen_def deque_append_def area_rel_def
  clip_box_def crop_def py_slice_def slice_bound_def stop_tracker_def start_tracker_def box_area_def
  py_int_def example_observation_def example_frame_def example_ext_def img_size_def img_height_def
  img_width_def less_prod_def worker_step_def

lemmas rec_defs = recognize_face_crop_def face_rgb_def query_def broadcast_pairs_def
  argmin_def py_max_def example_service_known

lemma example_sys_started:
  "example_sys =
     \<lparr>svc = example_service\<lparr>processing := True, recognition_queue := []\<rparr>,
      capture = Some \<lparr>frame_interval = 1 / 15, last_capture = 0, scale = 1 / 2\<rparr>,
      worker = Waiting\<rparr>"
  unfolding example_sys_def fresh_def example_service_def [symmetric]
  by (simp add: start_async_processing_def example_service_fields)

lemma example_run: "run example_ext example_schedule example_sys = example_recognizing"
  by (simp add: example_schedule_def example_sys_started
      example_service_fields tick_defs example_recognizing_def)

lemma example_recognition:
  "recognize_face_crop example_ext (svc example_recognizing) example_frame = Inr (''ana'', Finite 1)"
  by (simp add: example_recognizing_def example_service_fields rec_defs example_frame_def
      example_ext_def img_size_def img_height_def img_width_def)

lemma example_tracking_tick:
  "recognition_queue (outcome_state
      (capture_tick example_ext (1 / 2) example_frame example_observation example_tracking)) = [[[3]]]"
  by (simp add: outcome_state_def example_tracking_fields example_buffer_def tick_defs)

subsection \<open>The single-slot queue\<close>

lemma select_and_submit_enqueued:
  assumes "select_and_submit s = Inr s'"
  shows "enqueued s s'"
proof (cases "\<not> recognition_in_progress s \<and> \<not> result_displayed s
              \<and> recognition_queue s = [] \<and> 3 \<le> length (pose_buffer s)")
  case True
  with assms show ?thesis
    by (auto simp add: select_and_submit_def enqueued_def submit_empty_queue
        split: sum.splits prod.splits if_splits)
next
  case False
  with assms have "s' = s"
    by (auto simp add: select_and_submit_def)
  then show ?thesis by (simp add: enqueued_def)
qed

lemma track_step_enqueued: "enqueued s (outcome_state (track_step e frame upd s))"
proof -
  obtain ok b where Pair: "upd = (ok, b)"
    by (cases upd) auto
  show ?thesis
  proof (cases ok)
    case False
    with Pair show ?thesis
      by (simp add: track_step_def outcome_state_def stop_tracker_def enqueued_def)
  next
    case True
    obtain x1 y1 x2 y2 where box: "clip_box frame b = (x1, y1, x2, y2)"
      by (cases "clip_box frame b") auto
    let ?s1 = "s\<lparr>track_ok_frames := track_ok_frames s + 1\<rparr>"
    show ?thesis
    proof (cases "sample_pose e frame (x1, y1, x2, y2) (crop frame y1 y2 x1 x2) ?s1")
      case (Inl err)
      with Pair True box show ?thesis
        by (simp add: track_step_def outcome_state_def enqueued_def Let_def)
    next
      case (Inr s2)
      note sp = sample_pose_fields [OF Inr]
      show ?thesis
      proof (cases "select_and_submit s2")
        case (Inl err)
        with Pair True box Inr sp show ?thesis
          by (simp add: track_step_def outcome_state_def enqueued_def Let_def)
      next
        case (Inr s3)
        from select_and_submit_enqueued [OF Inr] sp have "enqueued s s3"
          by (simp add: enqueued_def)
        with Pair True box \<open>sample_pose e frame (x1, y1, x2, y2) (crop frame y1 y2 x1 x2) ?s1 = Inr s2\<close> Inr
        show ?thesis
          by (simp add: track_step_def outcome_state_def Let_def)
      qed
    qed
  qed
qed

lemma detect_step_queue:
  "recognition_queue (outcome_state (detect_step sc frame fs s)) = recognition_queue s"
  by (simp add: detect_step_def outcome_state_def start_tracker_def Let_def
      split: prod.splits sum.splits)

lemma capture_tick_enqueued: "enqueued s (outcome_state (capture_tick e sc frame ob s))"
proof (cases "tracker s")
  case None
  have "recognition_queue (outcome_state (capture_tick e sc frame ob s)) = recognition_queue s"
    using detect_step_queue [of sc frame "faces ob" "s\<lparr>frame_count := frame_count s + 1\<rparr>"]
    by (simp add: capture_tick_def None outcome_state_def split: outcome.splits)
  then show ?thesis by (simp add: enqueued_def)
next
  case (Some t)
  have "enqueued (s\<lparr>frame_count := frame_count s + 1\<rparr>)
          (outcome_state (track_step e frame (tracker_result ob) (s\<lparr>frame_count := frame_count s + 1\<rparr>)))"
    by (rule track_step_enqueued)
  then show ?thesis
    by (simp add: capture_tick_def Some outcome_state_def enqueued_def split: outcome.splits)
qed

lemma enqueued_bound:
  "enqueued s s' \<Longrightarrow> length (recognition_queue s) \<le> recognition_queue_maxsize
   \<Longrightarrow> length (recognition_queue s') \<le> recognition_queue_maxsize"
  by (auto simp add: enqueued_def recognition_queue_maxsize_def)

lemma capture_iter_bound:
  assumes "length (recognition_queue (svc sy)) \<le> recognition_queue_maxsize"
  shows "length (recognition_queue (svc (capture_iter e now ob sy))) \<le> recognition_queue_maxsize"
proof (cases "capture sy")
  case None
  with assms show ?thesis by (simp add: capture_iter_def)
next
  case (Some loc)
  show ?thesis
  proof (cases "camera_read ob")
    case None
    with Some assms show ?thesis by (simp add: capture_iter_def)
  next
    case (Some frame)
    from enqueued_bound [OF capture_tick_enqueued assms, of e "scale loc" frame ob]
    have "length (recognition_queue (outcome_state (capture_tick e (scale loc) frame ob (svc sy))))
            \<le> recognition_queue_maxsize" .
    with \<open>capture sy = Some loc\<close> Some assms show ?thesis
      by (simp add: capture_iter_def outcome_state_def split: outcome.splits)
  qed
qed

lemma worker_step_queue:
  "recognition_queue (svc (worker_step e now sy)) = recognition_queue (svc sy)
   \<or> recognition_queue (svc (worker_step e now sy)) = tl (recognition_queue (svc sy))"
  by (auto simp add: worker_step_def stop_tracker_def
      split: worker_pc.splits list.splits sum.splits prod.splits)

lemma worker_step_bound:
  assumes "length (recognition_queue (svc sy)) \<le> recognition_queue_maxsize"
  shows "length (recognition_queue (svc (worker_step e now sy))) \<le> recognition_queue_maxsize"
  using assms worker_step_queue [of e now sy] by auto

lemma step_bound:
  assumes "length (recognition_queue (svc sy)) \<le> recognition_queue_maxsize"
  shows "length (recognition_queue (svc (step e tev sy))) \<le> recognition_queue_maxsize"
proof -
  obtain now ev where tev: "tev = (now, ev)" by (cases tev) auto
  show ?thesis
  proof (cases ev)
    case (Capture ob)
    with tev capture_iter_bound [OF assms] show ?thesis by (simp add: step_def)
  next
    case Worker
    with tev worker_step_bound [OF assms] show ?thesis by (simp add: step_def)
  qed
qed

lemma run_bound:
  "length (recognition_queue (svc sy)) \<le> recognition_queue_maxsize
   \<Longrightarrow> length (recognition_queue (svc (run e evs sy))) \<le> recognition_queue_maxsize"
proof (induction evs arbitrary: sy)
  case Nil
  then show ?case by simp
next
  case (Cons tev evs)
  from Cons.IH [OF step_bound [OF Cons.prems]] show ?case by simp
qed

lemma fresh_queue: "recognition_queue (svc (fresh e fs file cf df scl)) = []"
  by (simp add: fresh_def start_async_processing_def init_defaults)

text \<open>
  Claim C1. Whatever the schedule of capture iterations and recognition-thread steps,
  the queue holds at most one crop: from a freshly started system, and from any system
  whose queue holds at most one. An enqueue does not wait: on an occupied queue
  \<^verbatim>\<open>put_nowait\<close> raises \<^verbatim>\<open>queue.Full\<close> at once and the submission leaves the service as
  it was, the crop dropped. An iteration of the capture loop changes the queue only
  when it saw \<open>recognition_in_progress\<close> false and the queue empty.
\<close>

theorem scheduler_single_slot:
  "length (recognition_queue (svc (run e evs (fresh e fs file cf df scl)))) \<le> 1
   \<and> (length (recognition_queue (svc sy)) \<le> 1
        \<longrightarrow> length (recognition_queue (svc (run e evs sy))) \<le> 1)
   \<and> (recognition_queue s \<noteq> []
        \<longrightarrow> put_nowait recognition_queue_maxsize (recognition_queue s) c = Inl QueueFull
            \<and> submit c s = s)
   \<and> (recognition_queue (outcome_state (capture_tick e sc frame ob s)) \<noteq> recognition_queue s
        \<longrightarrow> \<not> recognition_in_progress s \<and> recognition_queue s = [])"
proof -
  have a: "length (recognition_queue (svc (run e evs (fresh e fs file cf df scl)))) \<le> 1"
    using run_bound [of "fresh e fs file cf df scl" e evs]
    by (simp add: fresh_queue recognition_queue_maxsize_def)
  have a': "length (recognition_queue (svc (run e evs sy))) \<le> 1"
    if "length (recognition_queue (svc sy)) \<le> 1"
    using that run_bound [of sy e evs] by (simp add: recognition_queue_maxsize_def)
  have b: "put_nowait recognition_queue_maxsize (recognition_queue s) c = Inl QueueFull"
    if "recognition_queue s \<noteq> []"
    using that by (cases "recognition_queue s") (simp_all add: put_nowait_def recognition_queue_maxsize_def)
  have c: "\<not> recognition_in_progress s \<and> recognition_queue s = []"
    if "recognition_queue (outcome_state (capture_tick e sc frame ob s)) \<noteq> recognition_queue s"
    using that capture_tick_enqueued [of s e sc frame ob] by (auto simp add: enqueued_def)
  from a a' b c submit_full_queue [of s c] show ?thesis by blast
qed

theorem scheduler_single_slot_witness:
  "length (recognition_queue (svc example_sys)) \<le> 1
   \<and> length (recognition_queue (svc (run example_ext example_schedule example_sys))) \<le> 1
   \<and> recognition_queue example_occupied \<noteq> []
   \<and> put_nowait recognition_queue_maxsize (recognition_queue example_occupied) [[2]] = Inl QueueFull
   \<and> submit [[2]] example_occupied = example_occupied
   \<and> recognition_queue (outcome_state
        (capture_tick example_ext (1 / 2) example_frame example_observation example_tracking))
        \<noteq> recognition_queue example_tracking
   \<and> \<not> recognition_in_progress example_tracking
   \<and> recognition_queue example_tracking = []"
proof -
  have q: "recognition_queue example_occupied \<noteq> []"
    by (simp add: example_occupied_def)
  have l: "length (recognition_queue (svc example_sys)) \<le> 1"
    by (simp add: example_sys_def fresh_queue)
  have t: "recognition_queue (outcome_state
             (capture_tick example_ext (1 / 2) example_frame example_observation example_tracking))
           \<noteq> recognition_queue example_tracking"
    by (simp add: example_tracking_tick example_tracking_fields)
  note th = scheduler_single_slot
         [where e = example_ext and evs = example_schedule and sy = example_sys
            and s = example_occupied and c = "[[2]]"]
  from th l
  have a: "length (recognition_queue (svc (run example_ext example_schedule example_sys))) \<le> 1"
    by blast
  from th q
  have b: "put_nowait recognition_queue_maxsize (recognition_queue example_occupied) [[2]] = Inl QueueFull
           \<and> submit [[2]] example_occupied = example_occupied"
    by blast
  from scheduler_single_slot
         [where e = example_ext and s = example_tracking and sc = "1 / 2"
            and frame = example_frame and ob = example_observation]
       t
  have d: "\<not> recognition_in_progress example_tracking \<and> recognition_queue example_tracking = []"
    by blast
  from a b d q t l show ?thesis by blast
qed

subsection \<open>The pose buffer when tracking ends\<close>

text \<open>
  The recognition thread never assigns the pose buffer. The capture loop clears it when
  the tracker update fails and when a tracker is started.
\<close>

lemma worker_step_pose_buffer:
  "pose_buffer (svc (worker_step e now sy)) = pose_buffer (svc sy)"
  by (simp add: worker_step_def stop_tracker_def split: worker_pc.splits list.splits sum.splits prod.splits)

lemma tracker_lost_clears_buffer:
  assumes "tracker s = Some t" and "tracker_result ob = (False, b)"
  shows "\<exists>s'. capture_tick e sc frame ob s = Returns [] s' \<and> tracker s' = None \<and> pose_buffer s' = []"
  using assms by (simp add: capture_tick_def track_step_def stop_tracker_def)

lemma tracker_start_clears_buffer:
  assumes "tracker s = None" and "capture_tick e sc frame ob s = Returns ov s'" and "tracker s' \<noteq> None"
  shows "pose_buffer s' = []"
  using assms
  by (auto simp add: capture_tick_def detect_step_def start_tracker_def Let_def
      split: if_splits prod.splits sum.splits)

text \<open>
  Claim C5. On the example schedule the recognition thread finishes a recognition while
  the capture loop has gone on tracking and has put a new sample into the buffer. The
  thread stops the tracker, so the tracker goes from present to absent, and the buffer
  still holds that sample right after.
\<close>

theorem worker_stop_leaves_pose_buffer:
  "tracker (svc (run example_ext example_schedule example_sys)) = Some (0, 0, 4, 4)
   \<and> worker (run example_ext example_schedule example_sys) = Recognizing example_frame
   \<and> tracker (svc (worker_step example_ext 10 (run example_ext example_schedule example_sys))) = None
   \<and> pose_buffer (svc (worker_step example_ext 10 (run example_ext example_schedule example_sys)))
        = [(0, - 1, example_frame, (0, 0, 0))]"
proof -
  have t: "tracker (svc example_recognizing) = Some (0, 0, 4, 4)"
    and w: "worker example_recognizing = Recognizing example_frame"
    and b: "pose_buffer (svc example_recognizing) = [(0, - 1, example_frame, (0, 0, 0))]"
    by (simp_all add: example_recognizing_def)
  have "tracker (svc (worker_step example_ext 10 example_recognizing)) = None"
    by (simp add: worker_step_def w example_recognition stop_tracker_def)
  with t w b show ?thesis
    by (simp add: example_run worker_step_pose_buffer)
qed

subsection \<open>The lockout\<close>

text \<open>
  The capture loop assigns neither \<open>result_displayed\<close> nor \<open>lockout_active\<close>, and does
  not move the recognition thread.
\<close>

lemma select_and_submit_lockout:
  assumes "select_and_submit s = Inr s'"
  shows "result_displayed s' = result_displayed s \<and> lockout_active s' = lockout_active s"
  using assms
  by (auto simp add: select_and_submit_def submit_def split: if_splits sum.splits prod.splits)

lemma track_step_lockout:
  "result_displayed (outcome_state (track_step e frame upd s)) = result_displayed s
   \<and> lockout_active (outcome_state (track_step e frame upd s)) = lockout_active s"
proof -
  obtain ok b where upd: "upd = (ok, b)"
    by (cases upd) auto
  show ?thesis
  proof (cases ok)
    case False
    with upd show ?thesis
      by (simp add: track_step_def outcome_state_def stop_tracker_def)
  next
    case True
    obtain x1 y1 x2 y2 where box: "clip_box frame b = (x1, y1, x2, y2)"
      by (cases "clip_box frame b") auto
    let ?s1 = "s\<lparr>track_ok_frames := track_ok_frames s + 1\<rparr>"
    show ?thesis
    proof (cases "sample_pose e frame (x1, y1, x2, y2) (crop frame y1 y2 x1 x2) ?s1")
      case (Inl err)
      with upd True box show ?thesis
        by (simp add: track_step_def outcome_state_def Let_def)
    next
      case (Inr s2)
      note sp = sample_pose_fields [OF Inr]
      show ?thesis
      proof (cases "select_and_submit s2")
        case (Inl err)
        with upd True box Inr sp show ?thesis
          by (simp add: track_step_def outcome_state_def Let_def)
      next
        case (Inr s3)
        from select_and_submit_lockout [OF Inr] sp
        have "result_displayed s3 = result_displayed s \<and> lockout_active s3 = lockout_active s"
          by simp
        with upd True box \<open>sample_pose e frame (x1, y1, x2, y2) (crop frame y1 y2 x1 x2) ?s1 = Inr s2\<close> Inr
        show ?thesis
          by (simp add: track_step_def outcome_state_def Let_def)
      qed
    qed
  qed
qed

lemma detect_step_lockout:
  "result_displayed (outcome_state (detect_step sc frame fs s)) = result_displayed s
   \<and> lockout_active (outcome_state (detect_step sc frame fs s)) = lockout_active s"
  by (simp add: detect_step_def outcome_state_def start_tracker_def Let_def
      split: prod.splits sum.splits)

lemma capture_tick_lockout:
  "result_displayed (outcome_state (capture_tick e sc frame ob s)) = result_displayed s
   \<and> lockout_active (outcome_state (capture_tick e sc frame ob s)) = lockout_active s"
proof (cases "tracker s")
  case None
  with detect_step_lockout [of sc frame "faces ob" "s\<lparr>frame_count := frame_count s + 1\<rparr>"]
  show ?thesis
    by (simp add: capture_tick_def outcome_state_def split: outcome.splits)
next
  case (Some t)
  with track_step_lockout [of e frame "tracker_result ob" "s\<lparr>frame_count := frame_count s + 1\<rparr>"]
  show ?thesis
    by (simp add: capture_tick_def outcome_state_def split: outcome.splits)
qed

lemma capture_iter_lockout:
  "result_displayed (svc (capture_iter e now ob sy)) = result_displayed (svc sy)
   \<and> lockout_active (svc (capture_iter e now ob sy)) = lockout_active (svc sy)
   \<and> worker (capture_iter e now ob sy) = worker sy"
proof (cases "capture sy")
  case None
  then show ?thesis by (simp add: capture_iter_def)
next
  case (Some loc)
  show ?thesis
  proof (cases "camera_read ob")
    case None
    with Some show ?thesis by (simp add: capture_iter_def)
  next
    case (Some frame)
    with \<open>capture sy = Some loc\<close> capture_tick_lockout [of e "scale loc" frame ob "svc sy"]
    show ?thesis
      by (simp add: capture_iter_def outcome_state_def split: outcome.splits)
  qed
qed

lemma step_in_lockout:
  assumes "in_lockout u sy" and "fst tev < u \<or> snd tev \<noteq> Worker"
  shows "in_lockout u (step e tev sy)"
proof -
  obtain now ev where tev: "tev = (now, ev)" by (cases tev) auto
  show ?thesis
  proof (cases ev)
    case (Capture ob)
    with tev assms(1) capture_iter_lockout [of e now ob sy] show ?thesis
      by (simp add: step_def in_lockout_def)
  next
    case Worker
    with tev assms show ?thesis
      by (simp add: step_def in_lockout_def worker_step_def)
  qed
qed

lemma run_in_lockout:
  "in_lockout u sy \<Longrightarrow> before_wake u evs \<Longrightarrow> in_lockout u (run e evs sy)"
proof (induction evs arbitrary: sy)
  case Nil
  then show ?case by simp
next
  case (Cons tev evs)
  from Cons.prems(2) have h: "fst tev < u \<or> snd tev \<noteq> Worker" and r: "before_wake u evs"
    by (simp_all add: before_wake_def)
  from Cons.IH [OF step_in_lockout [OF Cons.prems(1) h] r] show ?case by simp
qed

lemma worker_step_consistent:
  assumes "lockout_consistent sy"
  shows "lockout_consistent (worker_step e now sy)"
proof (cases "worker sy")
  case Waiting
  with assms show ?thesis
    by (auto simp add: lockout_consistent_def worker_step_def split: list.splits)
next
  case (Recognizing c)
  with assms show ?thesis
    by (auto simp add: lockout_consistent_def worker_step_def stop_tracker_def
        split: sum.splits prod.splits)
next
  case (Sleeping u)
  then show ?thesis
    by (simp add: lockout_consistent_def worker_step_def)
next
  case Exited
  with assms show ?thesis
    by (simp add: lockout_consistent_def worker_step_def)
qed

lemma step_consistent:
  assumes "lockout_consistent sy"
  shows "lockout_consistent (step e tev sy)"
proof -
  obtain now ev where tev: "tev = (now, ev)" by (cases tev) auto
  show ?thesis
  proof (cases ev)
    case (Capture ob)
    with tev assms capture_iter_lockout [of e now ob sy] show ?thesis
      by (simp add: step_def lockout_consistent_def)
  next
    case Worker
    with tev worker_step_consistent [OF assms] show ?thesis
      by (simp add: step_def)
  qed
qed

lemma run_consistent:
  "lockout_consistent sy \<Longrightarrow> lockout_consistent (run e evs sy)"
proof (induction evs arbitrary: sy)
  case Nil
  then show ?case by simp
next
  case (Cons tev evs)
  from Cons.IH [OF step_consistent [OF Cons.prems]] show ?case by simp
qed

lemma worker_result_enters_lockout:
  assumes "worker sy = Recognizing c" and "recognize_face_crop e (svc sy) c = Inr r"
  shows "\<not> recognition_in_progress (svc (worker_step e T sy))
         \<and> tracker (svc (worker_step e T sy)) = None
         \<and> lockout_start_time (svc (worker_step e T sy)) = T
         \<and> in_lockout (T + 1) (worker_step e T sy)"
  using assms
  by (cases r) (simp add: worker_step_def stop_tracker_def in_lockout_def)

lemma wake_leaves_lockout:
  assumes "in_lockout u sy" and "u \<le> t"
  shows "\<not> result_displayed (svc (worker_step e t sy))
         \<and> \<not> lockout_active (svc (worker_step e t sy))
         \<and> worker (worker_step e t sy) = Waiting"
  using assms by (simp add: in_lockout_def worker_step_def)

text \<open>
  Claim C6. When the recognition thread finishes a recognition with a result at time
  \<open>T\<close>, it clears \<open>recognition_in_progress\<close>, stops the tracker, sets \<open>result_displayed\<close>
  and \<open>lockout_active\<close>, records \<open>T\<close> as the start of the lockout and sleeps for one
  second. Over any schedule in which the thread takes no step at \<open>T + 1\<close> or later (so
  over every schedule inside the interval from \<open>T\<close> to \<open>T + 1\<close>) both flags stay set;
  the thread's first step at a time \<open>t\<close> with \<open>T + 1 \<le> t\<close> clears both; and they are
  down at every later point at which the thread is not inside the sleep that follows
  another result.
\<close>

theorem lockout_window:
  assumes rec: "worker sy = Recognizing c"
    and res: "recognize_face_crop e (svc sy) c = Inr r"
    and quiet: "before_wake (T + 1) evs"
    and late: "T + 1 \<le> t"
    and awake: "\<forall>u. worker (run e evs' (worker_step e t (run e evs (worker_step e T sy)))) \<noteq> Sleeping u"
  shows "\<not> recognition_in_progress (svc (worker_step e T sy))
         \<and> tracker (svc (worker_step e T sy)) = None
         \<and> result_displayed (svc (worker_step e T sy))
         \<and> lockout_active (svc (worker_step e T sy))
         \<and> lockout_start_time (svc (worker_step e T sy)) = T
         \<and> result_displayed (svc (run e evs (worker_step e T sy)))
         \<and> lockout_active (svc (run e evs (worker_step e T sy)))
         \<and> \<not> result_displayed (svc (worker_step e t (run e evs (worker_step e T sy))))
         \<and> \<not> lockout_active (svc (worker_step e t (run e evs (worker_step e T sy))))
         \<and> \<not> result_displayed (svc (run e evs' (worker_step e t (run e evs (worker_step e T sy)))))
         \<and> \<not> lockout_active (svc (run e evs' (worker_step e t (run e evs (worker_step e T sy)))))"
proof -
  let ?sy1 = "worker_step e T sy"
  let ?sy2 = "run e evs ?sy1"
  let ?sy3 = "worker_step e t ?sy2"
  let ?sy4 = "run e evs' ?sy3"
  note enter = worker_result_enters_lockout [OF rec res, of T]
  then have l1: "in_lockout (T + 1) ?sy1" by blast
  from run_in_lockout [OF l1 quiet] have l2: "in_lockout (T + 1) ?sy2" .
  note wake = wake_leaves_lockout [OF l2 late, of e]
  then have "lockout_consistent ?sy3"
    by (simp add: lockout_consistent_def)
  from run_consistent [OF this] have "lockout_consistent ?sy4" .
  with awake have l4: "\<not> result_displayed (svc ?sy4) \<and> \<not> lockout_active (svc ?sy4)"
    by (simp add: lockout_consistent_def)
  from enter l1 l2 wake l4 show ?thesis
    by (simp add: in_lockout_def)
qed


theorem lockout_window_witness:
  "worker example_recognizing = Recognizing example_frame
   \<and> recognize_face_crop example_ext (svc example_recognizing) example_frame = Inr (''ana'', Finite 1)
   \<and> before_wake (10 + 1) example_during_lockout
   \<and> (10 :: real) + 1 \<le> 11
   \<and> (\<forall>u. worker (run example_ext example_after_lockout
                   (worker_step example_ext 11
                     (run example_ext example_during_lockout
                       (worker_step example_ext 10 example_recognizing)))) \<noteq> Sleeping u)
   \<and> tracker (svc (worker_step example_ext 10 example_recognizing)) = None
   \<and> lockout_start_time (svc (worker_step example_ext 10 example_recognizing)) = 10
   \<and> result_displayed (svc (run example_ext example_during_lockout
                               (worker_step example_ext 10 example_recognizing)))
   \<and> \<not> result_displayed (svc (worker_step example_ext 11
                                 (run example_ext example_during_lockout
                                   (worker_step example_ext 10 example_recognizing))))
   \<and> \<not> lockout_active (svc (run example_ext example_after_lockout
                                (worker_step example_ext 11
                                  (run example_ext example_during_lockout
                                    (worker_step example_ext 10 example_recognizing)))))"
proof -
  let ?sy1 = "worker_step example_ext 10 example_recognizing"
  let ?sy2 = "run example_ext example_during_lockout ?sy1"
  let ?sy3 = "worker_step example_ext 11 ?sy2"
  let ?sy4 = "run example_ext example_after_lockout ?sy3"
  have rec: "worker example_recognizing = Recognizing example_frame"
    by (simp add: example_recognizing_def)
  have quiet: "before_wake (10 + 1) example_during_lockout"
    by (simp add: before_wake_def example_during_lockout_def)
  have late: "(10 :: real) + 1 \<le> 11"
    by simp
  from worker_result_enters_lockout [OF rec example_recognition, of 10]
  have "in_lockout (10 + 1) ?sy1" by blast
  from run_in_lockout [OF this quiet] have "in_lockout (10 + 1) ?sy2" .
  from wake_leaves_lockout [OF this late, of example_ext] have w3: "worker ?sy3 = Waiting"
    by blast
  have "worker ?sy4 = worker ?sy3"
    using capture_iter_lockout [of example_ext 12 example_observation ?sy3]
    by (simp add: example_after_lockout_def step_def)
  with w3 have awake: "\<forall>u. worker ?sy4 \<noteq> Sleeping u"
    by simp
  from lockout_window [OF rec example_recognition quiet late awake]
       rec example_recognition quiet late awake
  show ?thesis by blast
qed

end
